theory Spec2Isabelle
  imports Complex_Main
begin

section \<open>ContactSim: actors, meetings and the simulation engine\<close>

text \<open>
  A shallow embedding of \<^verbatim>\<open>contactsim/contactsim.py\<close>. The floats the program holds
  are finite doubles, read as the real numbers they denote, and rounding inside the
  range of the doubles is outside the model. Where a result that leaves that range
  decides whether the code raises (in \<^verbatim>\<open>powerReceiver\<close>, in the distance of two
  actors and at the end of a new meeting), the range is modelled: overflow to an
  infinity or to an \<^verbatim>\<open>OverflowError\<close>, underflow to zero. Actor objects are records held by value in the list of the
  simulation; the collection is taken to hold distinct objects. Identifiers are of any
  linearly ordered type (the docstring says strings, \<^verbatim>\<open>generateActors\<close> uses integers,
  and \<^verbatim>\<open>sorted\<close> is applied to lists of them).

  Names follow the source, with these exceptions: the actor fields \<^verbatim>\<open>id\<close>, \<^verbatim>\<open>x\<close> and
  \<^verbatim>\<open>y\<close> are \<open>actorId\<close>, \<open>pos_x\<close> and \<open>pos_y\<close>; the meeting fields \<^verbatim>\<open>start\<close> and
  \<^verbatim>\<open>end\<close> are \<open>start_m\<close> and \<open>end_m\<close>; the simulation field \<^verbatim>\<open>c\<close> is \<open>c_sim\<close>.
\<close>

subsection \<open>Errors\<close>

text \<open>
  The exceptions the Python raises on the modelled paths: a float division by zero; a
  \<^verbatim>\<open>ValueError\<close>, tagged with the call that raises it, which is \<^verbatim>\<open>math.log10\<close> on an
  operand that is not positive or \<^verbatim>\<open>math.sqrt\<close> on a negative one (``math domain
  error''), or \<^verbatim>\<open>scipy.stats.norm.rvs\<close> on a negative scale (``Domain error in
  arguments''); the read of an attribute that \<^verbatim>\<open>__init__\<close> never set; and the
  \<^verbatim>\<open>OverflowError\<close> of \<^verbatim>\<open>math.pow\<close> (``math range error'') and of \<^verbatim>\<open>int\<close> on an
  infinity.
\<close>

datatype error = ZeroDivisionError | ValueError string | AttributeError | OverflowError

subsection \<open>The range of the doubles\<close>

text \<open>
  A result of double arithmetic is a finite value, an infinity or NaN. The largest
  finite double is \<open>2^1024 - 2^971\<close>; a result of magnitude \<open>2^1024 - 2^970\<close> or more
  rounds to an infinity. The smallest positive double is \<open>2^-1074\<close>; a quotient of
  magnitude \<open>2^-1075\<close> or less rounds to zero. Python raises on neither: products,
  quotients and sums overflow to \<^verbatim>\<open>inf\<close> and underflow to \<^verbatim>\<open>0.0\<close> silently.
\<close>

datatype dbl = Finite real | PlusInf | MinusInf | NotANumber

definition dbl_over :: real where
  "dbl_over = 2 ^ 1024 - 2 ^ 970"

definition dbl_under :: real where
  "dbl_under = 1 / 2 ^ 1075"

text \<open>A result that can overflow; and one that can underflow as well (a quotient).\<close>

definition ov :: "real \<Rightarrow> dbl" where
  "ov v = (if dbl_over \<le> v then PlusInf else if v \<le> - dbl_over then MinusInf else Finite v)"

definition fl :: "real \<Rightarrow> dbl" where
  "fl v = (if dbl_over \<le> v then PlusInf else if v \<le> - dbl_over then MinusInf
           else if \<bar>v\<bar> \<le> dbl_under then Finite 0 else Finite v)"

text \<open>Addition of doubles; a sum of two finite doubles can overflow, not underflow.\<close>

fun dadd :: "dbl \<Rightarrow> dbl \<Rightarrow> dbl" where
  "dadd (Finite a) (Finite b) = ov (a + b)"
| "dadd NotANumber y = NotANumber"
| "dadd x NotANumber = NotANumber"
| "dadd PlusInf MinusInf = NotANumber"
| "dadd MinusInf PlusInf = NotANumber"
| "dadd PlusInf y = PlusInf"
| "dadd x PlusInf = PlusInf"
| "dadd MinusInf y = MinusInf"
| "dadd x MinusInf = MinusInf"

text \<open>The order \<^verbatim>\<open><=\<close> of doubles; NaN is in no order with anything.\<close>

fun dbl_le :: "dbl \<Rightarrow> dbl \<Rightarrow> bool" where
  "dbl_le NotANumber y = False"
| "dbl_le x NotANumber = False"
| "dbl_le MinusInf y = True"
| "dbl_le x PlusInf = True"
| "dbl_le (Finite a) (Finite b) = (a \<le> b)"
| "dbl_le x y = False"

text \<open>
  The normal range: from the smallest positive normal double \<open>2^-1022\<close> to \<open>2^1023\<close>.
  A value in it neither overflows nor underflows.
\<close>

definition dbl_normal :: "real \<Rightarrow> bool" where
  "dbl_normal v \<longleftrightarrow> 1 / 2 ^ 1022 \<le> v \<and> v \<le> 2 ^ 1023"

text \<open>
  \<^verbatim>\<open>math.pow(x, 2)\<close> raises when the square of a finite \<^verbatim>\<open>x\<close> overflows, and returns
  zero when it underflows; the square of an infinity is \<^verbatim>\<open>inf\<close>. \<^verbatim>\<open>math.sqrt\<close> raises
  on a negative operand and returns \<^verbatim>\<open>inf\<close> on \<^verbatim>\<open>inf\<close>.
\<close>

definition py_pow2 :: "dbl \<Rightarrow> error + dbl" where
  "py_pow2 x =
     (case x of
        Finite v \<Rightarrow> if dbl_over \<le> v * v then Inl OverflowError else Inr (fl (v * v))
      | PlusInf \<Rightarrow> Inr PlusInf
      | MinusInf \<Rightarrow> Inr PlusInf
      | NotANumber \<Rightarrow> Inr NotANumber)"

definition py_sqrt :: "dbl \<Rightarrow> error + dbl" where
  "py_sqrt x =
     (case x of
        Finite v \<Rightarrow> if v < 0 then Inl (ValueError ''math.sqrt'') else Inr (Finite (sqrt v))
      | PlusInf \<Rightarrow> Inr PlusInf
      | MinusInf \<Rightarrow> Inl (ValueError ''math.sqrt'')
      | NotANumber \<Rightarrow> Inr NotANumber)"

subsection \<open>Actor\<close>

text \<open>
  \<^verbatim>\<open>Actor.__init__\<close> sets neither \<^verbatim>\<open>xComponent\<close> nor \<^verbatim>\<open>yComponent\<close>; they exist
  only after \<^verbatim>\<open>setVelocity\<close>. The two fields are therefore optional.
\<close>

record 'i Actor =
  actorId :: 'i
  powerTx :: real
  gainTx :: real
  gainRx :: real
  pos_x :: real
  pos_y :: real
  angle :: real
  speed :: real
  included :: bool
  deviceModel :: string
  xComponent :: "real option"
  yComponent :: "real option"

definition Actor_init :: "'i \<Rightarrow> real \<Rightarrow> real \<Rightarrow> real \<Rightarrow> string \<Rightarrow> 'i Actor" where
  "Actor_init ident powerTransmitter gainTransmitter gainReceiver model =
     \<lparr> actorId = ident, powerTx = powerTransmitter, gainTx = gainTransmitter,
       gainRx = gainReceiver, pos_x = 0, pos_y = 0, angle = 0, speed = 0,
       included = True, deviceModel = model, xComponent = None, yComponent = None \<rparr>"

definition setModel :: "'i Actor \<Rightarrow> string \<Rightarrow> 'i Actor" where
  "setModel a newModel = a\<lparr>deviceModel := newModel\<rparr>"

definition setPosition :: "'i Actor \<Rightarrow> real \<Rightarrow> real \<Rightarrow> 'i Actor" where
  "setPosition a newX newY = a\<lparr>pos_x := newX, pos_y := newY\<rparr>"

definition setVelocity :: "'i Actor \<Rightarrow> real \<Rightarrow> real \<Rightarrow> 'i Actor" where
  "setVelocity a newAngleRadians newSpeed =
     a\<lparr>angle := newAngleRadians, speed := newSpeed,
       xComponent := Some (cos newAngleRadians * newSpeed),
       yComponent := Some (sin newAngleRadians * newSpeed)\<rparr>"

text \<open>
  \<^verbatim>\<open>updatePosition\<close>: the cached \<^verbatim>\<open>xComponent\<close> moves the actor along y and the
  cached \<^verbatim>\<open>yComponent\<close> along x. Reading a component that was never set raises.
\<close>

definition updatePosition :: "'i Actor \<Rightarrow> real \<Rightarrow> error + 'i Actor" where
  "updatePosition a secondsElapsed =
     (case xComponent a of
        None \<Rightarrow> Inl AttributeError
      | Some xc \<Rightarrow>
          (case yComponent a of
             None \<Rightarrow> Inl AttributeError
           | Some yc \<Rightarrow>
               Inr (a\<lparr>pos_x := pos_x a + yc * secondsElapsed,
                       pos_y := pos_y a + xc * secondsElapsed\<rparr>)))"

text \<open>
  \<^verbatim>\<open>powerReceiver\<close>. The arguments are finite doubles. The product
  \<^verbatim>\<open>4 * math.pi * distance\<close> can overflow; it is zero, and the division raises, only
  at distance zero. The quotient can overflow and can underflow to zero; a finite
  wavelength divided by an infinity is zero. \<^verbatim>\<open>math.log10\<close> raises on an operand that
  is zero or negative and returns \<^verbatim>\<open>inf\<close> on \<^verbatim>\<open>inf\<close>; twenty times the logarithm of a
  positive finite double is finite. The sum is taken from left to right and can
  overflow. The method assigns to no attribute, so the model returns the value only.
\<close>

definition powerReceiver :: "'i Actor \<Rightarrow> real \<Rightarrow> real \<Rightarrow> real \<Rightarrow> real \<Rightarrow> error + dbl" where
  "powerReceiver a wl distance otherPowerTransmitter otherGainTransmitter =
     (let gains = dadd (dadd (Finite (gainRx a)) (Finite otherPowerTransmitter))
                    (Finite otherGainTransmitter)
      in case ov (4 * pi * distance) of
           Finite den \<Rightarrow>
             if den = 0 then Inl ZeroDivisionError
             else (case fl (wl / den) of
                     Finite operand \<Rightarrow>
                       if operand \<le> 0 then Inl (ValueError ''math.log10'')
                       else Inr (dadd gains (Finite (20 * log 10 operand)))
                   | PlusInf \<Rightarrow> Inr (dadd gains PlusInf)
                   | MinusInf \<Rightarrow> Inl (ValueError ''math.log10'')
                   | NotANumber \<Rightarrow> Inr NotANumber)
         | PlusInf \<Rightarrow> Inl (ValueError ''math.log10'')
         | MinusInf \<Rightarrow> Inl (ValueError ''math.log10'')
         | NotANumber \<Rightarrow> Inr NotANumber)"

text \<open>
  An observation used to state properties of the movement: the Euclidean distance
  between the position before \<^verbatim>\<open>setVelocity\<close> followed by \<^verbatim>\<open>updatePosition\<close> and the
  position after them.
\<close>

definition movedDistance :: "'i Actor \<Rightarrow> real \<Rightarrow> real \<Rightarrow> real \<Rightarrow> error + real" where
  "movedDistance a newAngleRadians newSpeed secondsElapsed =
     (case updatePosition (setVelocity a newAngleRadians newSpeed) secondsElapsed of
        Inl e \<Rightarrow> Inl e
      | Inr a' \<Rightarrow> Inr (sqrt ((pos_x a' - pos_x a)\<^sup>2 + (pos_y a' - pos_y a)\<^sup>2)))"

subsection \<open>Meeting\<close>

record 'i Meeting =
  start_m :: real
  end_m :: real
  participants :: "'i list"

definition Meeting_init :: "real \<Rightarrow> real \<Rightarrow> 'i list \<Rightarrow> 'i Meeting" where
  "Meeting_init startedAtTick endedAtTick participantIds =
     \<lparr> start_m = startedAtTick, end_m = endedAtTick, participants = participantIds \<rparr>"

definition stillMeeting :: "'i Meeting \<Rightarrow> real \<Rightarrow> bool" where
  "stillMeeting m tickNow \<longleftrightarrow> tickNow \<ge> start_m m \<and> tickNow \<le> end_m m"

definition hasParticipant :: "'i Meeting \<Rightarrow> 'i \<Rightarrow> bool" where
  "hasParticipant m participantId \<longleftrightarrow> List.member (participants m) participantId"

definition duration :: "'i Meeting \<Rightarrow> real" where
  "duration m = end_m m - start_m m"

subsection \<open>Simulation\<close>

text \<open>A reading is the 6-tuple appended to \<^verbatim>\<open>self.readings\<close>.\<close>

type_synonym 'i Reading = "real \<times> 'i \<times> 'i \<times> dbl \<times> string \<times> string"

record 'i Simulation =
  actors :: "'i Actor list"
  radioFrequency :: real
  maxRange :: real
  c_sim :: real
  wavelength :: real
  time :: real
  readings :: "'i Reading list"
  minX :: real
  minY :: real
  maxX :: real
  maxY :: real
  meetings :: "'i Meeting list"
  meetingDurationMean :: real
  meetingDurationSd :: real
  meetingDistanceMean :: real
  meetingDistanceSd :: real
  meetingChance :: real
  meetingMaxRange :: real

text \<open>\<^verbatim>\<open>Simulation.__init__\<close>; the division \<^verbatim>\<open>c / frequency\<close> raises at frequency zero.\<close>

definition Simulation_init ::
  "'i Actor list \<Rightarrow> real \<Rightarrow> real \<Rightarrow> real \<Rightarrow> real \<Rightarrow> real \<Rightarrow> real \<Rightarrow>
   real \<Rightarrow> real \<Rightarrow> real \<Rightarrow> real \<Rightarrow> real \<Rightarrow> real \<Rightarrow> error + 'i Simulation" where
  "Simulation_init as frequency maxEffectRange mnX mxX mnY mxY
       durMean durSd distMean distSd chance mtgMaxRange =
     (if frequency = 0 then Inl ZeroDivisionError
      else Inr \<lparr> actors = as, radioFrequency = frequency, maxRange = maxEffectRange,
                 c_sim = 2999100, wavelength = 2999100 / frequency, time = 0,
                 readings = [], minX = mnX, minY = mnY, maxX = mxX, maxY = mxY,
                 meetings = [], meetingDurationMean = durMean,
                 meetingDurationSd = durSd, meetingDistanceMean = distMean,
                 meetingDistanceSd = distSd, meetingChance = chance,
                 meetingMaxRange = mtgMaxRange \<rparr>)"

definition addActor :: "'i Simulation \<Rightarrow> 'i Actor \<Rightarrow> 'i Simulation" where
  "addActor s newActor = s\<lparr>actors := actors s @ [newActor]\<rparr>"

text \<open>\<^verbatim>\<open>isInMeeting\<close>: the loop over the meetings, returning at the first hit.\<close>

fun isInMeeting_loop :: "'i Meeting list \<Rightarrow> 'i \<Rightarrow> real \<Rightarrow> bool" where
  "isInMeeting_loop [] participantId tickNow = False"
| "isInMeeting_loop (m # ms) participantId tickNow =
     (if hasParticipant m participantId \<and> stillMeeting m tickNow then True
      else isInMeeting_loop ms participantId tickNow)"

definition isInMeeting :: "'i Simulation \<Rightarrow> 'i \<Rightarrow> real \<Rightarrow> bool" where
  "isInMeeting s participantId tickNow = isInMeeting_loop (meetings s) participantId tickNow"

text \<open>\<^verbatim>\<open>getMeeting\<close>: the first meeting whose sorted participants equal the sorted argument.\<close>

definition getMeeting :: "('i::linorder) Simulation \<Rightarrow> 'i list \<Rightarrow> 'i Meeting option" where
  "getMeeting s participantIds =
     find (\<lambda>m. sort (participants m) = sort participantIds) (meetings s)"

subsection \<open>The random sources\<close>

text \<open>
  \<^verbatim>\<open>random.random\<close>, \<^verbatim>\<open>scipy.stats.norm.cdf\<close> and \<^verbatim>\<open>scipy.stats.norm.rvs\<close> are not
  code of this repository. They are parameters: \<open>norm_cdf w x loc scale\<close> is the
  value of the distribution function, \<open>random_draw w k\<close> is the result of the \<open>k\<close>-th
  call of \<^verbatim>\<open>random.random\<close>, and \<open>norm_rvs w k loc scale\<close> the result of the \<open>k\<close>-th
  call of \<^verbatim>\<open>norm.rvs\<close>. The counters of the calls made so far are threaded through
  the simulation as the state of the generators. Outside the domain of the library the
  parameters are not consulted: at a scale that is not positive \<^verbatim>\<open>norm.cdf\<close> returns
  NaN, and at a negative scale \<^verbatim>\<open>norm.rvs\<close> raises \<^verbatim>\<open>ValueError\<close>; the meeting
  branch below says so.
\<close>

record world =
  norm_cdf :: "real \<Rightarrow> real \<Rightarrow> real \<Rightarrow> real"
  random_draw :: "nat \<Rightarrow> real"
  norm_rvs :: "nat \<Rightarrow> real \<Rightarrow> real \<Rightarrow> real"

record rng =
  random_calls :: nat
  rvs_calls :: nat

text \<open>Python's \<^verbatim>\<open>int\<close> of a float truncates toward zero.\<close>

definition py_int :: "real \<Rightarrow> int" where
  "py_int v = (if 0 \<le> v then \<lfloor>v\<rfloor> else \<lceil>v\<rceil>)"

subsection \<open>The tick: movement pass\<close>

definition outOfBounds :: "'i Simulation \<Rightarrow> 'i Actor \<Rightarrow> bool" where
  "outOfBounds s a \<longleftrightarrow>
     pos_x a < minX s \<or> pos_x a > maxX s \<or> pos_y a < minY s \<or> pos_y a > maxY s"

text \<open>
  The body of the first loop of \<^verbatim>\<open>step\<close> for one actor: the actor object as the body
  leaves it, and whether it was appended to \<^verbatim>\<open>remainingActors\<close>. The simulation
  passed in has its clock already advanced.
\<close>

definition moveActor :: "'i Simulation \<Rightarrow> real \<Rightarrow> 'i Actor \<Rightarrow> error + ('i Actor \<times> bool)" where
  "moveActor s secondsElapsed a =
     (if included a then
        if \<not> isInMeeting s (actorId a) (time s) then
          (case updatePosition a secondsElapsed of
             Inl e \<Rightarrow> Inl e
           | Inr a' \<Rightarrow>
               if outOfBounds s a' then Inr (a'\<lparr>included := False\<rparr>, False)
               else Inr (a', True))
        else Inr (a, True)
      else Inr (a, False))"

fun movePass :: "'i Simulation \<Rightarrow> real \<Rightarrow> 'i Actor list \<Rightarrow> error + 'i Actor list" where
  "movePass s secondsElapsed [] = Inr []"
| "movePass s secondsElapsed (a # as) =
     (case moveActor s secondsElapsed a of
        Inl e \<Rightarrow> Inl e
      | Inr (a', kept) \<Rightarrow>
          (case movePass s secondsElapsed as of
             Inl e \<Rightarrow> Inl e
           | Inr remainingActors \<Rightarrow>
               Inr (if kept then a' # remainingActors else remainingActors)))"

subsection \<open>The tick: pairwise pass\<close>

text \<open>
  The mutual distance,
  \<^verbatim>\<open>math.sqrt(math.pow(actorRx.x - actorTx.x, 2) + math.pow(actorRx.y - actorTx.y, 2))\<close>.
  The positions are finite doubles; a difference and the sum of the squares can
  overflow to \<^verbatim>\<open>inf\<close>, and a square can raise.
\<close>

definition actorRange :: "'i Actor \<Rightarrow> 'i Actor \<Rightarrow> error + dbl" where
  "actorRange actorRx actorTx =
     (case py_pow2 (ov (pos_x actorRx - pos_x actorTx)) of
        Inl e \<Rightarrow> Inl e
      | Inr sqx \<Rightarrow>
          (case py_pow2 (ov (pos_y actorRx - pos_y actorTx)) of
             Inl e \<Rightarrow> Inl e
           | Inr sqy \<Rightarrow> py_sqrt (dadd sqx sqy)))"

text \<open>
  The end of a new meeting, from the clock and the sampled duration:
  \<^verbatim>\<open>endTime = int(self.time + sample)\<close>, replaced by \<^verbatim>\<open>self.time + 1\<close> when it is
  smaller than that.
\<close>

definition endTime :: "real \<Rightarrow> real \<Rightarrow> real" where
  "endTime now sample =
     (let endTime0 = real_of_int (py_int (now + sample))
      in if endTime0 < now + 1 then now + 1 else endTime0)"

text \<open>
  The ``have met'' branch: the meeting that is appended, given the number \<open>k\<close> of the
  \<^verbatim>\<open>norm.rvs\<close> call that samples the duration.
\<close>

definition newMeeting ::
  "world \<Rightarrow> 'i Simulation \<Rightarrow> nat \<Rightarrow> 'i Actor \<Rightarrow> 'i Actor \<Rightarrow> 'i Meeting" where
  "newMeeting w s k actorRx actorTx =
     Meeting_init (time s)
       (endTime (time s) (norm_rvs w k (meetingDurationMean s) (meetingDurationSd s)))
       [actorId actorRx, actorId actorTx]"

text \<open>
  The meeting branch of the loop body (from \<^verbatim>\<open>if (self.meetingDurationMean > 0) ...\<close>
  to the append of the new \<^verbatim>\<open>Meeting\<close>). At a distance deviation that is not positive
  \<^verbatim>\<open>cdf\<close> is NaN and the comparison \<^verbatim>\<open>(rnd * self.meetingChance) > cdf\<close> is false. At a
  negative duration deviation \<^verbatim>\<open>norm.rvs\<close> raises. The sum of the clock and the
  sampled duration can overflow to an infinity, and \<^verbatim>\<open>int\<close> of an infinity raises
  \<^verbatim>\<open>OverflowError\<close>.
\<close>

definition meetingTest ::
  "world \<Rightarrow> ('i::linorder) Simulation \<times> rng \<Rightarrow> 'i Actor \<Rightarrow> 'i Actor \<Rightarrow> real \<Rightarrow>
   error + ('i Simulation \<times> rng)" where
  "meetingTest w sg actorRx actorTx range_m =
     (let s = fst sg; g = snd sg in
      if meetingDurationMean s > 0 \<and> range_m \<le> meetingMaxRange s then
        (case getMeeting s [actorId actorRx, actorId actorTx] of
           Some m \<Rightarrow> Inr sg
         | None \<Rightarrow>
             if range_m \<le> meetingDistanceMean s + 2 * meetingDistanceSd s then
               let rnd = random_draw w (random_calls g);
                   g1 = g\<lparr>random_calls := Suc (random_calls g)\<rparr>
               in if meetingDistanceSd s > 0
                     \<and> rnd * meetingChance s
                         > norm_cdf w range_m (meetingDistanceMean s) (meetingDistanceSd s)
                  then
                    if meetingDurationSd s < 0 then Inl (ValueError ''norm.rvs'')
                    else if dbl_over \<le> \<bar>time s + norm_rvs w (rvs_calls g1)
                                (meetingDurationMean s) (meetingDurationSd s)\<bar>
                    then Inl OverflowError
                    else Inr (s\<lparr>meetings := meetings s
                                 @ [newMeeting w s (rvs_calls g1) actorRx actorTx]\<rparr>,
                              g1\<lparr>rvs_calls := Suc (rvs_calls g1)\<rparr>)
                  else Inr (s, g1)
             else Inr sg)
      else Inr sg)"

text \<open>The reading branch of the loop body; \<^verbatim>\<open>powerReceiver\<close> may raise.\<close>

definition readingCapture ::
  "'i Simulation \<Rightarrow> 'i Actor \<Rightarrow> 'i Actor \<Rightarrow> real \<Rightarrow> error + 'i Simulation" where
  "readingCapture s actorRx actorTx range_m =
     (if range_m \<le> maxRange s \<and> range_m \<ge> wavelength s then
        (case powerReceiver actorRx (wavelength s) range_m (powerTx actorTx) (gainTx actorTx) of
           Inl e \<Rightarrow> Inl e
         | Inr powerRx \<Rightarrow>
             Inr (s\<lparr>readings := readings s
                    @ [(time s, actorId actorRx, actorId actorTx, powerRx,
                        deviceModel actorRx, deviceModel actorTx)]\<rparr>))
      else Inr s)"

text \<open>
  The whole body of the inner loop for one receiver and one transmitter. The distance
  is a finite double or \<^verbatim>\<open>inf\<close> (a square root of a sum of squares is neither
  \<^verbatim>\<open>-inf\<close> nor NaN, see \<open>actorRange_cases\<close> below); at \<^verbatim>\<open>inf\<close> the comparisons
  \<^verbatim>\<open>range <= self.meetingMaxRange\<close> and \<^verbatim>\<open>range <= self.maxRange\<close> with the finite
  parameters are false, and the body does nothing.
\<close>

definition visitPair ::
  "world \<Rightarrow> ('i::linorder) Simulation \<times> rng \<Rightarrow> 'i Actor \<Rightarrow> 'i Actor \<Rightarrow>
   error + ('i Simulation \<times> rng)" where
  "visitPair w sg actorRx actorTx =
     (if actorId actorRx \<noteq> actorId actorTx then
        (case actorRange actorRx actorTx of
           Inl e \<Rightarrow> Inl e
         | Inr (Finite range_m) \<Rightarrow>
             (case meetingTest w sg actorRx actorTx range_m of
                Inl e \<Rightarrow> Inl e
              | Inr sg1 \<Rightarrow>
                  (case readingCapture (fst sg1) actorRx actorTx range_m of
                     Inl e \<Rightarrow> Inl e
                   | Inr s2 \<Rightarrow> Inr (s2, snd sg1)))
         | Inr PlusInf \<Rightarrow> Inr sg
         | Inr MinusInf \<Rightarrow> Inr sg
         | Inr NotANumber \<Rightarrow> Inr sg)
      else Inr sg)"

text \<open>
  The inner loop is \<^verbatim>\<open>for _,actorTx in enumerate(self.actors,start=rxIdx + 1)\<close>.
  The \<^verbatim>\<open>start\<close> argument of \<^verbatim>\<open>enumerate\<close> is the number given to the first element;
  it skips nothing, and the number is discarded here. So the inner loop runs over the
  whole of \<^verbatim>\<open>self.actors\<close>, for every receiver.
\<close>

fun innerLoop ::
  "world \<Rightarrow> ('i::linorder) Simulation \<times> rng \<Rightarrow> 'i Actor \<Rightarrow> 'i Actor list \<Rightarrow>
   error + ('i Simulation \<times> rng)" where
  "innerLoop w sg actorRx [] = Inr sg"
| "innerLoop w sg actorRx (actorTx # txs) =
     (case visitPair w sg actorRx actorTx of
        Inl e \<Rightarrow> Inl e
      | Inr sg' \<Rightarrow> innerLoop w sg' actorRx txs)"

fun outerLoop ::
  "world \<Rightarrow> ('i::linorder) Simulation \<times> rng \<Rightarrow> 'i Actor list \<Rightarrow> 'i Actor list \<Rightarrow>
   error + ('i Simulation \<times> rng)" where
  "outerLoop w sg allActors [] = Inr sg"
| "outerLoop w sg allActors (actorRx # rxs) =
     (case innerLoop w sg actorRx allActors of
        Inl e \<Rightarrow> Inl e
      | Inr sg' \<Rightarrow> outerLoop w sg' allActors rxs)"

subsection \<open>The tick\<close>

text \<open>
  \<^verbatim>\<open>Simulation.step\<close>: advance the clock, move the actors and replace the collection
  by the retained ones, then run the pairwise pass over the new collection. The
  \<^verbatim>\<open>print\<close> of a new meeting is not modelled.
\<close>

definition step ::
  "world \<Rightarrow> ('i::linorder) Simulation \<times> rng \<Rightarrow> real \<Rightarrow> error + ('i Simulation \<times> rng)" where
  "step w sg secondsElapsed =
     (let s1 = (fst sg)\<lparr>time := time (fst sg) + secondsElapsed\<rparr> in
      case movePass s1 secondsElapsed (actors s1) of
        Inl e \<Rightarrow> Inl e
      | Inr remainingActors \<Rightarrow>
          outerLoop w (s1\<lparr>actors := remainingActors\<rparr>, snd sg)
            remainingActors remainingActors)"

text \<open>
  The states an engine can be in after construction: any sequence of \<^verbatim>\<open>addActor\<close> and
  \<^verbatim>\<open>step\<close> calls that returned.
\<close>

inductive reaches ::
  "world \<Rightarrow> ('i::linorder) Simulation \<times> rng \<Rightarrow> 'i Simulation \<times> rng \<Rightarrow> bool"
  for w :: world and sg0 :: "'i Simulation \<times> rng" where
  reaches_refl: "reaches w sg0 sg0"
| reaches_addActor:
    "reaches w sg0 sg \<Longrightarrow> reaches w sg0 (addActor (fst sg) newActor, snd sg)"
| reaches_step:
    "reaches w sg0 sg \<Longrightarrow> step w sg secondsElapsed = Inr sg' \<Longrightarrow> reaches w sg0 sg'"

section \<open>Auxiliary definitions\<close>

subsection \<open>What the pairwise pass leaves alone, and what it appends\<close>

text \<open>The simulation without its two logs.\<close>

definition config :: "'i Simulation \<Rightarrow> 'i Simulation" where
  "config s = s\<lparr>meetings := [], readings := []\<rparr>"

text \<open>
  \<open>grows w L s s'\<close>: the state \<open>s'\<close> is \<open>s\<close> with meetings and readings appended,
  each of them made from a receiver and a transmitter of the list \<open>L\<close> with
  different identifiers.
\<close>

definition grows :: "world \<Rightarrow> 'i Actor list \<Rightarrow> 'i Simulation \<Rightarrow> 'i Simulation \<Rightarrow> bool" where
  "grows w L s s' \<longleftrightarrow>
     config s' = config s \<and>
     (\<exists>newM newR.
        meetings s' = meetings s @ newM \<and> readings s' = readings s @ newR \<and>
        (\<forall>m\<in>set newM. \<exists>rx\<in>set L. \<exists>tx\<in>set L. \<exists>k.
            actorId rx \<noteq> actorId tx \<and> m = newMeeting w s k rx tx) \<and>
        (\<forall>r\<in>set newR. \<exists>rx\<in>set L. \<exists>tx\<in>set L. \<exists>p.
            actorId rx \<noteq> actorId tx \<and>
            r = (time s, actorId rx, actorId tx, p, deviceModel rx, deviceModel tx)))"

text \<open>
  The invariant of the meeting list: no two meetings have the same sorted participants,
  and every meeting has two different participants.
\<close>

definition pairMeetings :: "('i::linorder) Meeting list \<Rightarrow> bool" where
  "pairMeetings ms \<longleftrightarrow>
     distinct (map (\<lambda>m. sort (participants m)) ms) \<and>
     (\<forall>m\<in>set ms. \<exists>p q. p \<noteq> q \<and> participants m = [p, q])"

text \<open>
  The exceptions the pairwise pass can raise in a simulation with the parameters of
  \<open>s\<close>: the overflow of a square in the distance, the sampling of a duration at a
  negative deviation, and what the reading branch raises.
\<close>

definition passError :: "'i Simulation \<Rightarrow> error \<Rightarrow> bool" where
  "passError s e \<longleftrightarrow>
     e = OverflowError
     \<or> (e = ValueError ''norm.rvs'' \<and> meetingDurationSd s < 0)
     \<or> (\<exists>rx tx d. readingCapture s rx tx d = Inl e)"

subsection \<open>The pairwise pass as a sequence of visits\<close>




subsection \<open>Test scenes\<close>

text \<open>
  Concrete inputs for the instances below. The scene has two stationary actors one
  metre apart, with meeting distance mean 1, deviation 0.3, meeting chance 1, duration
  mean 300 and deviation 0; the frequency makes the wavelength 1/8. In the scene's
  world every uniform draw is 3/4, the distribution function is 1/2 (its value at the
  mean, the only place where the scene evaluates it), and a sampled duration is the
  mean (as it is at deviation 0).
\<close>

definition scene_world :: world where
  "scene_world = \<lparr> norm_cdf = (\<lambda>v loc scale. 1 / 2), random_draw = (\<lambda>k. 3 / 4),
      norm_rvs = (\<lambda>k loc scale. loc) \<rparr>"

definition scene_rng :: rng where
  "scene_rng = \<lparr> random_calls = 0, rvs_calls = 0 \<rparr>"

definition scene_actor :: "int \<Rightarrow> real \<Rightarrow> real \<Rightarrow> int Actor" where
  "scene_actor i px py =
     setVelocity (setPosition (Actor_init i 13 (3 / 2) (3 / 2) ''model013'') px py) 0 0"

text \<open>An actor at \<open>(199, 0)\<close> heading east at 5 metres per second.\<close>

definition scene_runner :: "int Actor" where
  "scene_runner =
     setVelocity (setPosition (Actor_init 3 13 (3 / 2) (3 / 2) ''model013'') 199 0) (pi / 2) 5"

definition scene_sim :: "int Simulation" where
  "scene_sim = \<lparr> actors = [scene_actor 1 0 0, scene_actor 2 1 0],
      radioFrequency = 23992800, maxRange = 15,
      c_sim = 2999100, wavelength = 1 / 8, time = 0,
      readings = [], minX = - 200, minY = - 200, maxX = 200, maxY = 200,
      meetings = [], meetingDurationMean = 300,
      meetingDurationSd = 0, meetingDistanceMean = 1,
      meetingDistanceSd = 3 / 10, meetingChance = 1,
      meetingMaxRange = 3 \<rparr>"

definition scene_power :: real where
  "scene_power = 3 / 2 + 13 + 3 / 2 + 20 * log 10 ((1 / 8) / (4 * pi * 1))"

definition scene_reading :: "real \<Rightarrow> int \<Rightarrow> int \<Rightarrow> int Reading" where
  "scene_reading t i j = (t, i, j, Finite scene_power, ''model013'', ''model013'')"

text \<open>The scene after one tick of one second, and after a second one.\<close>

definition scene_sim1 :: "int Simulation" where
  "scene_sim1 = scene_sim\<lparr>time := 1, meetings := [Meeting_init 1 301 [1, 2]],
      readings := [scene_reading 1 1 2, scene_reading 1 2 1]\<rparr>"

definition scene_rng1 :: rng where
  "scene_rng1 = \<lparr> random_calls = 1, rvs_calls = 1 \<rparr>"

definition scene_sim2 :: "int Simulation" where
  "scene_sim2 = scene_sim1\<lparr>time := 2,
      readings := [scene_reading 1 1 2, scene_reading 1 2 1,
                   scene_reading 2 1 2, scene_reading 2 2 1]\<rparr>"

text \<open>
  A scene at the edge of the range of the doubles: frequency \<open>2^1000\<close> Hz, two
  stationary actors \<open>2^400\<close> metres apart inside the box, an effect range of \<open>2^400\<close>
  metres, and meetings switched off (duration mean 0).
\<close>

definition far_sim :: "int Simulation" where
  "far_sim = \<lparr> actors = [scene_actor 1 0 0, scene_actor 2 (2 ^ 400) 0],
      radioFrequency = 2 ^ 1000, maxRange = 2 ^ 400,
      c_sim = 2999100, wavelength = 2999100 / 2 ^ 1000, time = 0,
      readings = [], minX = - (2 ^ 401), minY = - 1, maxX = 2 ^ 401, maxY = 1,
      meetings = [], meetingDurationMean = 0,
      meetingDurationSd = 0, meetingDistanceMean = 1,
      meetingDistanceSd = 3 / 10, meetingChance = 1,
      meetingMaxRange = 3 \<rparr>"

section \<open>Properties of the actor\<close>

subsection \<open>Movement\<close>

lemma heading_components_sq:
  "(s * sin th * t)\<^sup>2 + (s * cos th * t)\<^sup>2 = (s * t)\<^sup>2" for s t th :: real
proof -
  have "(s * sin th * t)\<^sup>2 + (s * cos th * t)\<^sup>2
          = (s * t)\<^sup>2 * (sin th)\<^sup>2 + (s * t)\<^sup>2 * (cos th)\<^sup>2"
    by (simp add: power_mult_distrib mult_ac)
  also have "\<dots> = (s * t)\<^sup>2 * ((sin th)\<^sup>2 + (cos th)\<^sup>2)"
    by (simp only: distrib_left)
  also have "\<dots> = (s * t)\<^sup>2" by simp
  finally show ?thesis .
qed

text \<open>
  Claim C4, as stated, at a negative speed: heading north (angle 0) with speed \<open>-1\<close>
  for one second moves the actor from \<open>(0, 0)\<close> to \<open>(0, -1)\<close>. The distance moved is
  \<open>1\<close>, and the product of speed and time is \<open>-1\<close>.
\<close>

theorem movedDistance_negative_speed:
  "movedDistance (Actor_init (1::int) 13 1.5 1.5 ''model001'') 0 (- 1) 1 = Inr 1
   \<and> (1::real) \<noteq> (- 1) * 1"
  by (simp add: movedDistance_def updatePosition_def setVelocity_def Actor_init_def)

text \<open>
  Claim C4, amended: after \<^verbatim>\<open>setVelocity(th, s)\<close> and \<^verbatim>\<open>updatePosition(t)\<close> the actor
  has moved by exactly \<open>s * sin th * t\<close> along x and \<open>s * cos th * t\<close> along y (north is
  0 radians), and the Euclidean distance moved is the absolute value of \<open>s * t\<close>.
\<close>

theorem setVelocity_updatePosition_displacement:
  "\<exists>a'. updatePosition (setVelocity a th s) t = Inr a'
       \<and> pos_x a' = pos_x a + s * sin th * t
       \<and> pos_y a' = pos_y a + s * cos th * t
       \<and> movedDistance a th s t = Inr \<bar>s * t\<bar>"
proof -
  have "sqrt ((sin th * s * t)\<^sup>2 + (cos th * s * t)\<^sup>2) = \<bar>s * t\<bar>"
    using heading_components_sq [of s th t] by (simp add: mult.commute mult.left_commute)
  then show ?thesis
    by (simp add: updatePosition_def setVelocity_def movedDistance_def
        mult.commute mult.left_commute)
qed

subsection \<open>Received power\<close>

lemma dbl_bounds:
  "0 < dbl_under" "dbl_under < 1 / 2 ^ 1022" "(2::real) ^ 1023 < dbl_over" "0 < dbl_over"
  "(2::real) ^ 1022 + 21500 < dbl_over"
  by (simp_all add: dbl_under_def dbl_over_def)

lemma dbl_over_small: "v \<le> 2 ^ 1023 \<Longrightarrow> (dbl_over \<le> v) = False"
  using dbl_bounds(3) by simp

lemma ov_Finite: "- dbl_over < v \<Longrightarrow> v < dbl_over \<Longrightarrow> ov v = Finite v"
  by (simp add: ov_def)

lemma fl_Finite: "dbl_under < v \<Longrightarrow> v < dbl_over \<Longrightarrow> fl v = Finite v"
  using dbl_bounds(1,4) by (simp add: fl_def)

lemma log10_pow2: "log 10 (2 ^ n) \<le> real n"
proof -
  have "log 10 (2 ^ n) = real n * log 10 2" by (simp add: log_nat_power)
  also have "\<dots> \<le> real n * 1"
    by (intro mult_left_mono) (simp_all add: log_le_one_cancel_iff)
  finally show ?thesis by simp
qed

lemma log10_upper: "0 < v \<Longrightarrow> v \<le> 2 ^ n \<Longrightarrow> log 10 v \<le> real n"
proof -
  assume h: "0 < v" "v \<le> 2 ^ n"
  then have "log 10 v \<le> log 10 (2 ^ n)" by simp
  then show ?thesis using log10_pow2 [of n] by linarith
qed

lemma log10_lower: "1 / 2 ^ n \<le> v \<Longrightarrow> - real n \<le> log 10 v"
proof -
  assume h: "1 / 2 ^ n \<le> v"
  have p: "(0::real) < 1 / 2 ^ n" by simp
  then have v: "0 < v" using h by linarith
  have "log 10 (1 / 2 ^ n) \<le> log 10 v" using h p v by simp
  moreover have "log 10 (1 / 2 ^ n) = - log 10 (2 ^ n)" by (simp add: log_divide)
  ultimately show ?thesis using log10_pow2 [of n] by linarith
qed

lemma den_positive:
  "0 < d \<Longrightarrow> 4 * pi * d < dbl_over \<Longrightarrow> ov (4 * pi * d) = Finite (4 * pi * d) \<and> 4 * pi * d \<noteq> 0"
proof -
  assume h: "0 < d" "4 * pi * d < dbl_over"
  have p: "0 < 4 * pi * d" using h(1) by simp
  then have "- dbl_over < 4 * pi * d" using dbl_bounds(4) by linarith
  then have f: "ov (4 * pi * d) = Finite (4 * pi * d)" using h(2) by (rule ov_Finite)
  have n: "4 * pi * d \<noteq> 0" using p by linarith
  show ?thesis using f n by (rule conjI)
qed

lemma powerReceiver_in_range:
  assumes "0 < d" "0 < wl" "4 * pi * d < dbl_over"
    and "dbl_under < wl / (4 * pi * d)" "wl / (4 * pi * d) < dbl_over"
  shows "powerReceiver a wl d p g
     = Inr (dadd (dadd (dadd (Finite (gainRx a)) (Finite p)) (Finite g))
              (Finite (20 * log 10 (wl / (4 * pi * d)))))"
proof -
  have o: "0 < wl / (4 * pi * d)" using assms(1,2) by simp
  show ?thesis
    using den_positive [OF assms(1,3)] fl_Finite [OF assms(4,5)] o
    by (simp add: powerReceiver_def Let_def)
qed

lemma gains_Finite:
  assumes "\<bar>x\<bar> + \<bar>y\<bar> + \<bar>z\<bar> \<le> 2 ^ 1022" "\<bar>t\<bar> \<le> 21500"
  shows "dadd (dadd (dadd (Finite x) (Finite y)) (Finite z)) (Finite t) = Finite (x + y + z + t)"
proof -
  have b: "(2::real) ^ 1022 + 21500 < dbl_over" by (rule dbl_bounds(5))
  have 1: "ov (x + y) = Finite (x + y)" using assms b by (intro ov_Finite) linarith+
  have 2: "ov (x + y + z) = Finite (x + y + z)" using assms b by (intro ov_Finite) linarith+
  have 3: "ov (x + y + z + t) = Finite (x + y + z + t)" using assms b by (intro ov_Finite) linarith+
  show ?thesis by (simp add: 1 2 3)
qed

lemma dbl_normal_log: "dbl_normal v \<Longrightarrow> \<bar>20 * log 10 v\<bar> \<le> 21500"
proof -
  assume h: "dbl_normal v"
  then have lo: "1 / 2 ^ 1022 \<le> v" and hi: "v \<le> 2 ^ 1023" by (simp_all add: dbl_normal_def)
  have "(0::real) < 1 / 2 ^ 1022" by simp
  then have v: "0 < v" using lo by linarith
  have "log 10 v \<le> real (1023::nat)" using v hi by (rule log10_upper)
  moreover have "- real (1022::nat) \<le> log 10 v" using lo by (rule log10_lower)
  ultimately show ?thesis by simp
qed

lemma powerReceiver_normal:
  assumes "dbl_normal (4 * pi * distance)" "dbl_normal (wl / (4 * pi * distance))"
    and "\<bar>gainRx a\<bar> + \<bar>p\<bar> + \<bar>g\<bar> \<le> 2 ^ 1022"
  shows "powerReceiver a wl distance p g
     = Inr (Finite (gainRx a + p + g + 20 * log 10 (wl / (4 * pi * distance))))"
proof -
  have pos: "(0::real) < 1 / 2 ^ 1022" by simp
  have d1: "0 < 4 * pi * distance" "4 * pi * distance < dbl_over"
    using assms(1) pos dbl_bounds(3) by (simp_all add: dbl_normal_def)
  then have d: "0 < distance" by (simp add: zero_less_mult_iff)
  have o: "0 < wl / (4 * pi * distance)" "dbl_under < wl / (4 * pi * distance)"
    "wl / (4 * pi * distance) < dbl_over"
    using assms(2) pos dbl_bounds(2,3) by (simp_all add: dbl_normal_def)
  have w: "0 < wl" using o(1) d1(1) by (simp add: zero_less_divide_iff)
  show ?thesis
    using powerReceiver_in_range [OF d w d1(2) o(2,3), of a p g]
      gains_Finite [OF assms(3) dbl_normal_log [OF assms(2)]]
    by simp
qed

lemma fl_zero: "fl 0 = Finite 0"
  using dbl_bounds(1,4) by (simp add: fl_def)

lemma dbl_small:
  "(16::real) < dbl_over" "- dbl_over < (16::real)" "(29 / 2 :: real) < dbl_over"
  "- dbl_over < (29 / 2 :: real)" "dbl_under < 1 / 128" "(1::real) < dbl_over"
  by (simp_all add: dbl_over_def dbl_under_def)

lemma dbl_large:
  "dbl_over \<le> 8 * 2 ^ 1023" "dbl_over \<le> 2 ^ 1023 / (1 / 4)" "dbl_over \<le> 2 ^ 1023 + 2 ^ 1023"
  by (simp_all add: dbl_over_def)

lemma fl_under: "0 \<le> v \<Longrightarrow> v \<le> dbl_under \<Longrightarrow> fl v = Finite 0"
proof -
  assume h: "0 \<le> v" "v \<le> dbl_under"
  have "dbl_under < dbl_over" using dbl_small(5,6) by linarith
  then have "\<not> dbl_over \<le> v" "\<not> v \<le> - dbl_over" "\<bar>v\<bar> \<le> dbl_under"
    using h dbl_bounds(4) by linarith+
  then show ?thesis by (simp only: fl_def if_False if_True)
qed

lemma gains_scene: "dadd (dadd (Finite (3 / 2)) (Finite 13)) (Finite (3 / 2)) = Finite 16"
proof -
  have "ov (29 / 2) = Finite (29 / 2)" "ov 16 = Finite 16"
    using dbl_small(1-4) by (simp_all add: ov_Finite)
  then show ?thesis by simp
qed

lemma pi_bounds: "2 \<le> pi" "pi < 4"
  using pi_ge_two pi_less_4 by simp_all

lemma four_pi_bounds:
  "0 < d \<Longrightarrow> 8 * d \<le> 4 * pi * d" "0 < d \<Longrightarrow> 4 * pi * d < 16 * d"
  using pi_bounds by simp_all

lemma den_one: "ov (4 * pi * 1) = Finite (4 * pi * 1) \<and> 4 * pi * 1 \<noteq> 0"
proof (rule den_positive)
  show "(0::real) < 1" by simp
  have "4 * pi * 1 < 16" using pi_bounds by simp
  then show "4 * pi * 1 < dbl_over" using dbl_small(1) by (rule less_trans)
qed

lemma operand_one:
  "1 / 128 < (1 / 8) / (4 * pi * 1)" "(1 / 8) / (4 * pi * 1) < 1" "0 < (1 / 8) / (4 * pi * 1)"
  using pi_bounds by (simp_all add: field_simps)

lemma fl_operand_one: "fl ((1 / 8) / (4 * pi * 1)) = Finite ((1 / 8) / (4 * pi * 1))"
proof (rule fl_Finite)
  show "dbl_under < (1 / 8) / (4 * pi * 1)" using dbl_small(5) operand_one(1) by (rule less_trans)
  show "(1 / 8) / (4 * pi * 1) < dbl_over" using operand_one(2) dbl_small(6) by (rule less_trans)
qed

lemma ov_far: "ov (4 * pi * 2 ^ 1023) = PlusInf"
proof -
  have "(8::real) * 2 ^ 1023 \<le> 4 * pi * 2 ^ 1023" by (rule four_pi_bounds(1)) simp
  with dbl_large(1) have "dbl_over \<le> 4 * pi * 2 ^ 1023" by (rule order_trans)
  then show ?thesis by (simp only: ov_def if_True)
qed

lemma den_near: "ov (4 * pi * (1 / 64)) = Finite (4 * pi * (1 / 64)) \<and> 4 * pi * (1 / 64) \<noteq> 0"
proof (rule den_positive)
  show "(0::real) < 1 / 64" by simp
  have "4 * pi * (1 / 64) < 16" using pi_bounds by simp
  then show "4 * pi * (1 / 64) < dbl_over" using dbl_small(1) by (rule less_trans)
qed

lemma fl_near: "fl (2 ^ 1023 / (4 * pi * (1 / 64))) = PlusInf"
proof -
  have "4 * pi * (1 / 64) \<le> 1 / 4" using pi_bounds by simp
  moreover have "(0::real) < 4 * pi * (1 / 64)" by simp
  moreover have "(0::real) \<le> 2 ^ 1023" by (rule zero_le_power) simp
  ultimately have "2 ^ 1023 / (1 / 4) \<le> 2 ^ 1023 / (4 * pi * (1 / 64))"
    by (intro divide_left_mono mult_pos_pos) simp_all
  with dbl_large(2) have "dbl_over \<le> 2 ^ 1023 / (4 * pi * (1 / 64))" by (rule order_trans)
  then show ?thesis by (simp only: fl_def if_True)
qed

lemma ov_big: "ov (2 ^ 1023 + 2 ^ 1023) = PlusInf"
  using dbl_large(3) by (simp only: ov_def if_True)

lemma dbl_normal_four_pi: "dbl_normal (4 * pi * 1)"
proof -
  have "8 \<le> 4 * pi * 1" "4 * pi * 1 < 16" using pi_bounds by simp_all
  moreover have "(1::real) / 2 ^ 1022 \<le> 8" "(16::real) \<le> 2 ^ 1023" by simp_all
  ultimately show ?thesis unfolding dbl_normal_def by linarith
qed

lemma dbl_normal_eighth: "dbl_normal ((1 / 8) / (4 * pi * 1))"
proof -
  have "(1::real) / 2 ^ 1022 \<le> 1 / 128" "(1::real) \<le> 2 ^ 1023" by simp_all
  then show ?thesis unfolding dbl_normal_def using operand_one(1,2) by linarith
qed

lemma ov_not_nan: "ov v \<noteq> NotANumber"
  by (simp add: ov_def)

lemma dadd_Finite_not_nan: "x \<noteq> NotANumber \<Longrightarrow> dadd x (Finite t) \<noteq> NotANumber"
  by (cases x) (simp_all add: ov_not_nan)

lemma gains_not_nan: "dadd (dadd (Finite x) (Finite y)) (Finite z) \<noteq> NotANumber"
  by (intro dadd_Finite_not_nan) (simp add: ov_not_nan)

lemma ov_mono: "u \<le> v \<Longrightarrow> dbl_le (ov u) (ov v)"
  using dbl_bounds(4) by (simp add: ov_def)

lemma dadd_mono:
  "x \<noteq> NotANumber \<Longrightarrow> t2 \<le> t1 \<Longrightarrow> dbl_le (dadd x (Finite t2)) (dadd x (Finite t1))"
  by (cases x) (simp_all add: ov_mono)

lemma powerReceiver_beyond_wavelength:
  assumes "0 < wl" "wl \<le> d"
  shows "powerReceiver a wl d p g
     = (if dbl_over \<le> 4 * pi * d \<or> wl / (4 * pi * d) \<le> dbl_under
        then Inl (ValueError ''math.log10'')
        else Inr (dadd (dadd (dadd (Finite (gainRx a)) (Finite p)) (Finite g))
                    (Finite (20 * log 10 (wl / (4 * pi * d))))))"
proof (cases "dbl_over \<le> 4 * pi * d")
  case True
  then have "ov (4 * pi * d) = PlusInf" by (simp add: ov_def)
  then show ?thesis using True by (simp add: powerReceiver_def Let_def)
next
  case False
  have d: "0 < d" using assms by linarith
  have den: "ov (4 * pi * d) = Finite (4 * pi * d) \<and> 4 * pi * d \<noteq> 0"
    using d False by (intro den_positive) simp_all
  have "wl / (4 * pi * d) \<le> d / (4 * pi * d)"
    using assms(2) d by (intro divide_right_mono) simp_all
  also have "d / (4 * pi * d) = 1 / (4 * pi)" using d by simp
  also have "\<dots> \<le> 1" using pi_bounds by simp
  finally have le1: "wl / (4 * pi * d) \<le> 1" .
  have up: "wl / (4 * pi * d) < dbl_over" using le1 dbl_small(6) by linarith
  have o: "0 < wl / (4 * pi * d)" using assms(1) d by simp
  show ?thesis
  proof (cases "wl / (4 * pi * d) \<le> dbl_under")
    case True
    have "0 \<le> wl / (4 * pi * d)" using o by (rule less_imp_le)
    then have "fl (wl / (4 * pi * d)) = Finite 0" using True by (rule fl_under)
    then show ?thesis using True den by (simp add: powerReceiver_def Let_def)
  next
    case under: False
    then have "fl (wl / (4 * pi * d)) = Finite (wl / (4 * pi * d))"
      using up by (intro fl_Finite) simp_all
    then show ?thesis using under False den o by (simp add: powerReceiver_def Let_def)
  qed
qed

lemma operand_antimono:
  assumes "0 < wl" "0 < d1" "d1 \<le> d2"
  shows "wl / (4 * pi * d2) \<le> wl / (4 * pi * d1)"
  using assms by (intro divide_left_mono mult_pos_pos) simp_all

lemma powerReceiver_ordered:
  assumes "0 < wl" "wl \<le> d1" "d1 \<le> d2"
    and "\<not> (dbl_over \<le> 4 * pi * d2 \<or> wl / (4 * pi * d2) \<le> dbl_under)"
  shows "\<exists>p1 p2. powerReceiver a wl d1 p g = Inr p1 \<and> powerReceiver a wl d2 p g = Inr p2
           \<and> dbl_le p2 p1"
proof -
  let ?G = "dadd (dadd (Finite (gainRx a)) (Finite p)) (Finite g)"
  have d1: "0 < d1" using assms(1,2) by linarith
  have d2: "0 < d2" "wl \<le> d2" using d1 assms(2,3) by linarith+
  have op: "wl / (4 * pi * d2) \<le> wl / (4 * pi * d1)"
    using assms(1) d1 assms(3) by (rule operand_antimono)
  have o2: "0 < wl / (4 * pi * d2)" using assms(1) d2(1) by simp
  have mono: "4 * pi * d1 \<le> 4 * pi * d2" using assms(3) by simp
  have "\<not> dbl_over \<le> 4 * pi * d2" "\<not> wl / (4 * pi * d2) \<le> dbl_under"
    using assms(4) by blast+
  then have "\<not> dbl_over \<le> 4 * pi * d1" "\<not> wl / (4 * pi * d1) \<le> dbl_under"
    using mono op by linarith+
  then have n1: "\<not> (dbl_over \<le> 4 * pi * d1 \<or> wl / (4 * pi * d1) \<le> dbl_under)"
    by blast
  have r1: "powerReceiver a wl d1 p g = Inr (dadd ?G (Finite (20 * log 10 (wl / (4 * pi * d1)))))"
    using powerReceiver_beyond_wavelength [OF assms(1,2), of a p g] n1 by simp
  have r2: "powerReceiver a wl d2 p g = Inr (dadd ?G (Finite (20 * log 10 (wl / (4 * pi * d2)))))"
    using powerReceiver_beyond_wavelength [OF assms(1) d2(2), of a p g] assms(4) by simp
  have "log 10 (wl / (4 * pi * d2)) \<le> log 10 (wl / (4 * pi * d1))"
    using op o2 by simp
  then have "20 * log 10 (wl / (4 * pi * d2)) \<le> 20 * log 10 (wl / (4 * pi * d1))" by simp
  then have "dbl_le (dadd ?G (Finite (20 * log 10 (wl / (4 * pi * d2)))))
      (dadd ?G (Finite (20 * log 10 (wl / (4 * pi * d1)))))"
    using gains_not_nan by (intro dadd_mono)
  then show ?thesis using r1 r2 by simp
qed

lemma dbl_normal_scene:
  "dbl_normal (4 * pi * 3)" "dbl_normal (1 / (4 * pi * 3))"
proof -
  have "24 \<le> 4 * pi * 3" "4 * pi * 3 < 48" using pi_bounds by simp_all
  moreover have "(1::real) / 2 ^ 1022 \<le> 24" "(48::real) \<le> 2 ^ 1023" by simp_all
  ultimately show "dbl_normal (4 * pi * 3)" unfolding dbl_normal_def by linarith
  have "1 / 48 < 1 / (4 * pi * 3)" "1 / (4 * pi * 3) < 1"
    using pi_bounds by (simp_all add: field_simps)
  moreover have "(1::real) / 2 ^ 1022 \<le> 1 / 48" "(1::real) \<le> 2 ^ 1023" by simp_all
  ultimately show "dbl_normal (1 / (4 * pi * 3))" unfolding dbl_normal_def by linarith
qed

text \<open>
  Claim C5, as stated, at four inputs with a positive distance. At wavelength zero and
  distance one the operand of the logarithm is zero and \<^verbatim>\<open>math.log10\<close> raises. At
  wavelength 1/8 and distance \<open>2^1023\<close> the product \<open>4 * pi * distance\<close> overflows to
  \<^verbatim>\<open>inf\<close>, the operand is zero, and \<^verbatim>\<open>math.log10\<close> raises. At wavelength \<open>2^1023\<close> and
  distance 1/64 the operand overflows, and at a receiver gain and a transmitter power
  of \<open>2^1023\<close> the sum of the gains overflows: the call returns \<^verbatim>\<open>inf\<close>, not the value
  of the formula.
\<close>

theorem powerReceiver_outside_range:
  "powerReceiver (Actor_init (1::int) 13 1.5 1.5 ''model001'') 0 1 13 1.5
     = Inl (ValueError ''math.log10'')
   \<and> powerReceiver (Actor_init (1::int) 13 1.5 1.5 ''model001'') (1 / 8) (2 ^ 1023) 13 1.5
     = Inl (ValueError ''math.log10'')
   \<and> powerReceiver (Actor_init (1::int) 13 1.5 1.5 ''model001'') (2 ^ 1023) (1 / 64) 13 1.5
     = Inr PlusInf
   \<and> powerReceiver (Actor_init (1::int) 13 1.5 (2 ^ 1023) ''model001'') (1 / 8) 1 (2 ^ 1023) 1.5
     = Inr PlusInf"
proof -
  let ?a = "Actor_init (1::int) 13 1.5 1.5 ''model001''"
  have c1: "powerReceiver ?a 0 1 13 1.5 = Inl (ValueError ''math.log10'')"
    unfolding powerReceiver_def Let_def using den_one by (simp add: fl_zero)
  have c2: "powerReceiver ?a (1 / 8) (2 ^ 1023) 13 1.5 = Inl (ValueError ''math.log10'')"
    unfolding powerReceiver_def Let_def by (simp only: ov_far dbl.case)
  have c3: "powerReceiver ?a (2 ^ 1023) (1 / 64) 13 1.5 = Inr PlusInf"
  proof -
    have g: "dadd (dadd (Finite (gainRx ?a)) (Finite 13)) (Finite 1.5) = Finite 16"
      using gains_scene by (simp add: Actor_init_def)
    define den where d: "den = 4 * pi * (1 / 64)"
    have "ov den = Finite den" unfolding d using den_near by (rule conjunct1)
    moreover have "den \<noteq> 0" unfolding d using den_near by (rule conjunct2)
    moreover have "fl (2 ^ 1023 / den) = PlusInf" unfolding d by (rule fl_near)
    ultimately have "(case ov den of
                  Finite den \<Rightarrow>
                    if den = 0 then Inl ZeroDivisionError
                    else (case fl (2 ^ 1023 / den) of
                            Finite operand \<Rightarrow>
                              if operand \<le> 0 then Inl (ValueError ''math.log10'')
                              else Inr (dadd (Finite 16) (Finite (20 * log 10 operand)))
                          | PlusInf \<Rightarrow> Inr (dadd (Finite 16) PlusInf)
                          | MinusInf \<Rightarrow> Inl (ValueError ''math.log10'')
                          | NotANumber \<Rightarrow> Inr NotANumber)
                | PlusInf \<Rightarrow> Inl (ValueError ''math.log10'')
                | MinusInf \<Rightarrow> Inl (ValueError ''math.log10'')
                | NotANumber \<Rightarrow> Inr NotANumber) = Inr PlusInf"
      by (simp only: dbl.case if_False dadd.simps)
    then show ?thesis unfolding powerReceiver_def Let_def g d .
  qed
  have c4: "powerReceiver (Actor_init (1::int) 13 1.5 (2 ^ 1023) ''model001'')
      (1 / 8) 1 (2 ^ 1023) 1.5 = Inr PlusInf"
  proof -
    have g: "dadd (dadd (Finite (gainRx (Actor_init (1::int) 13 1.5 (2 ^ 1023) ''model001'')))
               (Finite (2 ^ 1023))) (Finite 1.5) = PlusInf"
      by (simp only: Actor_init_def Actor.simps ov_big dadd.simps)
    define den where d: "den = 4 * pi * 1"
    define opd where p: "opd = (1 / 8) / den"
    have "ov den = Finite den" unfolding d using den_one by (rule conjunct1)
    moreover have "den \<noteq> 0" unfolding d using den_one by (rule conjunct2)
    moreover have "fl ((1 / 8) / den) = Finite opd" unfolding d p by (rule fl_operand_one)
    moreover have "\<not> opd \<le> 0" unfolding d p not_le by (rule operand_one(3))
    ultimately have "(case ov den of
                  Finite den \<Rightarrow>
                    if den = 0 then Inl ZeroDivisionError
                    else (case fl ((1 / 8) / den) of
                            Finite operand \<Rightarrow>
                              if operand \<le> 0 then Inl (ValueError ''math.log10'')
                              else Inr (dadd PlusInf (Finite (20 * log 10 operand)))
                          | PlusInf \<Rightarrow> Inr (dadd PlusInf PlusInf)
                          | MinusInf \<Rightarrow> Inl (ValueError ''math.log10'')
                          | NotANumber \<Rightarrow> Inr NotANumber)
                | PlusInf \<Rightarrow> Inl (ValueError ''math.log10'')
                | MinusInf \<Rightarrow> Inl (ValueError ''math.log10'')
                | NotANumber \<Rightarrow> Inr NotANumber) = Inr PlusInf"
      by (simp only: dbl.case if_False dadd.simps)
    then show ?thesis unfolding powerReceiver_def Let_def g d .
  qed
  show ?thesis using c1 c2 c3 c4 by (intro conjI)
qed

text \<open>
  Claim C5, amended: for a positive distance and a positive wavelength such that
  \<open>4 * pi * distance\<close> and the operand \<open>wavelength / (4 * pi * distance)\<close> are in the
  normal range of the doubles, and gains whose magnitudes add up to at most \<open>2^1022\<close>,
  \<^verbatim>\<open>powerReceiver\<close> returns exactly the receiver's gain plus the transmitter's power
  and gain plus \<open>20 * log10 (wavelength / (4 * pi * distance))\<close>. The result is a
  function of the arguments and of \<open>gainRx\<close> alone; no state is returned because
  none is written.
\<close>

theorem powerReceiver_friis:
  "0 < distance \<Longrightarrow> 0 < wl
   \<Longrightarrow> dbl_normal (4 * pi * distance) \<Longrightarrow> dbl_normal (wl / (4 * pi * distance))
   \<Longrightarrow> \<bar>gainRx a\<bar> + \<bar>p\<bar> + \<bar>g\<bar> \<le> 2 ^ 1022
   \<Longrightarrow> powerReceiver a wl distance p g
     = Inr (Finite (gainRx a + p + g + 20 * log 10 (wl / (4 * pi * distance))))"
  by (rule powerReceiver_normal)

theorem powerReceiver_friis_witness:
  "(0::real) < 1 \<and> (0::real) < 1 / 8
   \<and> dbl_normal (4 * pi * 1) \<and> dbl_normal ((1 / 8) / (4 * pi * 1))
   \<and> \<bar>3 / 2 :: real\<bar> + \<bar>13\<bar> + \<bar>3 / 2\<bar> \<le> 2 ^ 1022
   \<and> powerReceiver (Actor_init (1::int) 13 1.5 1.5 ''model001'') (1 / 8) 1 13 1.5
     = Inr (Finite (1.5 + 13 + 1.5 + 20 * log 10 ((1 / 8) / (4 * pi * 1))))"
proof -
  have g: "\<bar>gainRx (Actor_init (1::int) 13 1.5 1.5 ''model001'')\<bar> + \<bar>13\<bar> + \<bar>3 / 2 :: real\<bar>
      \<le> 2 ^ 1022"
    by (simp add: Actor_init_def)
  have b: "\<bar>3 / 2 :: real\<bar> + \<bar>13\<bar> + \<bar>3 / 2\<bar> \<le> 2 ^ 1022" by simp
  have p: "(0::real) < 1" "(0::real) < 1 / 8" by simp_all
  have r: "powerReceiver (Actor_init (1::int) 13 1.5 1.5 ''model001'') (1 / 8) 1 13 (3 / 2)
     = Inr (Finite (gainRx (Actor_init (1::int) 13 1.5 1.5 ''model001'') + 13 + 3 / 2
              + 20 * log 10 ((1 / 8) / (4 * pi * 1))))"
    using p dbl_normal_four_pi dbl_normal_eighth g by (rule powerReceiver_friis)
  have "powerReceiver (Actor_init (1::int) 13 1.5 1.5 ''model001'') (1 / 8) 1 13 1.5
     = Inr (Finite (1.5 + 13 + 1.5 + 20 * log 10 ((1 / 8) / (4 * pi * 1))))"
    using r by (simp add: Actor_init_def)
  then show ?thesis using p dbl_normal_four_pi dbl_normal_eighth b by (intro conjI)
qed

text \<open>
  Claim C9, as stated, at wavelength 1/8 and the distances 1 and \<open>2^1023\<close>, both above
  the wavelength: the call at distance 1 returns, and the call at distance \<open>2^1023\<close>
  raises (the product \<open>4 * pi * distance\<close> overflows), so there is no value at the
  larger distance to compare with.
\<close>

theorem powerReceiver_far_raises:
  "(0::real) < 1 / 8 \<and> (1 / 8 :: real) \<le> 1 \<and> (1::real) \<le> 2 ^ 1023
   \<and> powerReceiver (Actor_init (1::int) 13 1.5 1.5 ''model001'') (1 / 8) 1 13 1.5
       = Inr (Finite (1.5 + 13 + 1.5 + 20 * log 10 ((1 / 8) / (4 * pi * 1))))
   \<and> powerReceiver (Actor_init (1::int) 13 1.5 1.5 ''model001'') (1 / 8) (2 ^ 1023) 13 1.5
       = Inl (ValueError ''math.log10'')"
proof -
  let ?a = "Actor_init (1::int) 13 1.5 1.5 ''model001''"
  have h: "(0::real) < 1 / 8" "(1 / 8 :: real) \<le> 1" "(1::real) \<le> 2 ^ 1023" by simp_all
  have g: "\<bar>gainRx ?a\<bar> + \<bar>13\<bar> + \<bar>3 / 2 :: real\<bar> \<le> 2 ^ 1022"
    by (simp add: Actor_init_def)
  from powerReceiver_normal [OF dbl_normal_four_pi dbl_normal_eighth g]
  have near: "powerReceiver ?a (1 / 8) 1 13 1.5
       = Inr (Finite (1.5 + 13 + 1.5 + 20 * log 10 ((1 / 8) / (4 * pi * 1))))"
    by (simp add: Actor_init_def)
  have far: "powerReceiver ?a (1 / 8) (2 ^ 1023) 13 1.5 = Inl (ValueError ''math.log10'')"
    unfolding powerReceiver_def Let_def by (simp only: ov_far dbl.case)
  show ?thesis using h near far by (intro conjI)
qed

text \<open>
  Claim C9, amended: with the wavelength positive and everything but the distance
  fixed, for \<open>wl \<le> d1 \<le> d2\<close> either the call at \<open>d2\<close> raises the domain error of the
  logarithm, or both calls return and the value at \<open>d2\<close> is at most the value at
  \<open>d1\<close>. When \<open>4 * pi * d2\<close> and the operand at \<open>d2\<close> are in the normal range of the
  doubles, both calls return.
\<close>

theorem powerReceiver_antimono:
  assumes "0 < wl" "wl \<le> d1" "d1 \<le> d2"
  shows "(powerReceiver a wl d2 p g = Inl (ValueError ''math.log10'')
          \<or> (\<exists>p1 p2. powerReceiver a wl d1 p g = Inr p1 \<and> powerReceiver a wl d2 p g = Inr p2
                \<and> dbl_le p2 p1))
       \<and> (dbl_normal (4 * pi * d2) \<and> dbl_normal (wl / (4 * pi * d2))
            \<longrightarrow> (\<exists>p1 p2. powerReceiver a wl d1 p g = Inr p1 \<and> powerReceiver a wl d2 p g = Inr p2
                  \<and> dbl_le p2 p1))"
proof (rule conjI)
  have d2: "wl \<le> d2" using assms(2,3) by linarith
  show "powerReceiver a wl d2 p g = Inl (ValueError ''math.log10'')
          \<or> (\<exists>p1 p2. powerReceiver a wl d1 p g = Inr p1 \<and> powerReceiver a wl d2 p g = Inr p2
                \<and> dbl_le p2 p1)"
  proof (cases "dbl_over \<le> 4 * pi * d2 \<or> wl / (4 * pi * d2) \<le> dbl_under")
    case True
    then show ?thesis using powerReceiver_beyond_wavelength [OF assms(1) d2, of a p g] by simp
  next
    case False
    then show ?thesis using powerReceiver_ordered [OF assms False] by blast
  qed
  show "dbl_normal (4 * pi * d2) \<and> dbl_normal (wl / (4 * pi * d2))
            \<longrightarrow> (\<exists>p1 p2. powerReceiver a wl d1 p g = Inr p1 \<and> powerReceiver a wl d2 p g = Inr p2
                  \<and> dbl_le p2 p1)"
  proof
    assume n: "dbl_normal (4 * pi * d2) \<and> dbl_normal (wl / (4 * pi * d2))"
    then have "4 * pi * d2 < dbl_over" "dbl_under < wl / (4 * pi * d2)"
      using dbl_bounds(2,3) by (simp_all add: dbl_normal_def)
    then have "\<not> (dbl_over \<le> 4 * pi * d2 \<or> wl / (4 * pi * d2) \<le> dbl_under)" by simp
    then show "\<exists>p1 p2. powerReceiver a wl d1 p g = Inr p1 \<and> powerReceiver a wl d2 p g = Inr p2
                  \<and> dbl_le p2 p1"
      by (rule powerReceiver_ordered [OF assms])
  qed
qed

theorem powerReceiver_antimono_witness:
  "(0::real) < 1 \<and> (1::real) \<le> 2 \<and> (2::real) \<le> 3
   \<and> dbl_normal (4 * pi * 3) \<and> dbl_normal (1 / (4 * pi * 3))
   \<and> (\<exists>p1 p2. powerReceiver (Actor_init (1::int) 13 1.5 1.5 ''model001'') 1 2 13 1.5 = Inr p1
         \<and> powerReceiver (Actor_init (1::int) 13 1.5 1.5 ''model001'') 1 3 13 1.5 = Inr p2
         \<and> dbl_le p2 p1)"
proof -
  have h: "(0::real) < 1" "(1::real) \<le> 2" "(2::real) \<le> 3" by simp_all
  have "\<exists>p1 p2. powerReceiver (Actor_init (1::int) 13 1.5 1.5 ''model001'') 1 2 13 1.5 = Inr p1
         \<and> powerReceiver (Actor_init (1::int) 13 1.5 1.5 ''model001'') 1 3 13 1.5 = Inr p2
         \<and> dbl_le p2 p1"
    using powerReceiver_antimono [OF h, of "Actor_init (1::int) 13 1.5 1.5 ''model001''" 13 "1.5"]
      dbl_normal_scene by blast
  then show ?thesis using h dbl_normal_scene by (intro conjI)
qed

subsection \<open>The distance of two actors\<close>

lemma dbl_pow_bounds:
  "(2::real) ^ 1000 < dbl_over" "dbl_under < 1 / 2 ^ 1000" "(2::real) ^ 500 < dbl_over"
  by (simp_all add: dbl_over_def dbl_under_def)

lemma py_pow2_Finite:
  assumes "1 / 2 ^ 500 \<le> \<bar>v\<bar>" "\<bar>v\<bar> \<le> 2 ^ 500"
  shows "py_pow2 (ov v) = Inr (Finite (v * v))"
proof -
  have "- dbl_over < v" "v < dbl_over" using assms(2) dbl_pow_bounds(3) by linarith+
  then have o: "ov v = Finite v" by (rule ov_Finite)
  have "\<bar>v\<bar> * \<bar>v\<bar> \<le> 2 ^ 500 * 2 ^ 500" using assms(2) by (intro mult_mono) simp_all
  also have "(2::real) ^ 500 * 2 ^ 500 = 2 ^ 1000" by (simp add: power_add [symmetric])
  finally have up: "v * v \<le> 2 ^ 1000" by (simp add: abs_mult_self_eq)
  have "(1 / 2 ^ 500) * (1 / 2 ^ 500) \<le> \<bar>v\<bar> * \<bar>v\<bar>" using assms(1) by (intro mult_mono) simp_all
  moreover have "((1::real) / 2 ^ 500) * (1 / 2 ^ 500) = 1 / 2 ^ 1000"
    by (simp add: power_add [symmetric])
  ultimately have lo: "1 / 2 ^ 1000 \<le> v * v" by (simp add: abs_mult_self_eq)
  have "dbl_under < v * v" "v * v < dbl_over" using up lo dbl_pow_bounds(1,2) by linarith+
  then have "fl (v * v) = Finite (v * v)" "\<not> dbl_over \<le> v * v" by (simp_all add: fl_Finite)
  then show ?thesis by (simp add: py_pow2_def o)
qed

lemma py_pow2_zero: "py_pow2 (ov 0) = Inr (Finite 0)"
proof -
  have "ov 0 = Finite 0" using dbl_bounds(4) by (simp add: ov_def)
  then show ?thesis using dbl_bounds(4) by (simp add: py_pow2_def fl_zero)
qed

lemma actorRange_on_axis:
  assumes "pos_y rx = pos_y tx" "1 / 2 ^ 500 \<le> \<bar>pos_x rx - pos_x tx\<bar>"
    "\<bar>pos_x rx - pos_x tx\<bar> \<le> 2 ^ 500"
  shows "actorRange rx tx = Inr (Finite \<bar>pos_x rx - pos_x tx\<bar>)"
proof -
  let ?v = "pos_x rx - pos_x tx"
  have x: "py_pow2 (ov ?v) = Inr (Finite (?v * ?v))" using assms(2,3) by (rule py_pow2_Finite)
  have y: "py_pow2 (ov (pos_y rx - pos_y tx)) = Inr (Finite 0)"
    using assms(1) by (simp add: py_pow2_zero)
  have "\<bar>?v\<bar> * \<bar>?v\<bar> \<le> 2 ^ 500 * 2 ^ 500" using assms(3) by (intro mult_mono) simp_all
  also have "(2::real) ^ 500 * 2 ^ 500 = 2 ^ 1000" by (simp add: power_add [symmetric])
  finally have up: "?v * ?v \<le> 2 ^ 1000" by (simp add: abs_mult_self_eq)
  have "0 \<le> ?v * ?v" by simp
  then have "- dbl_over < ?v * ?v" "?v * ?v < dbl_over"
    using up dbl_pow_bounds(1) dbl_bounds(4) by linarith+
  then have s: "ov (?v * ?v) = Finite (?v * ?v)" by (rule ov_Finite)
  show ?thesis by (simp add: actorRange_def x y s py_sqrt_def)
qed

lemma py_pow2_cases:
  "py_pow2 (ov v) = Inl OverflowError \<or> py_pow2 (ov v) = Inr PlusInf
   \<or> (\<exists>q. 0 \<le> q \<and> py_pow2 (ov v) = Inr (Finite q))"
proof -
  have n: "0 \<le> v * v" by simp
  then have "\<not> v * v \<le> - dbl_over" using dbl_bounds(4) by linarith
  then have "fl (v * v) = PlusInf \<or> (\<exists>q. 0 \<le> q \<and> fl (v * v) = Finite q)"
    using n by (simp add: fl_def)
  then show ?thesis by (auto simp: py_pow2_def ov_def)
qed

lemma dadd_nonneg:
  assumes "0 \<le> p" "0 \<le> q"
  shows "dadd (Finite p) (Finite q) = PlusInf
     \<or> (\<exists>r. 0 \<le> r \<and> dadd (Finite p) (Finite q) = Finite r)"
proof -
  have "\<not> p + q \<le> - dbl_over" "0 \<le> p + q" using assms dbl_bounds(4) by linarith+
  then show ?thesis by (simp add: ov_def)
qed

text \<open>The distance is a finite double that is not negative, or \<^verbatim>\<open>inf\<close>, or the square raises.\<close>

lemma actorRange_cases:
  "actorRange rx tx = Inl OverflowError \<or> actorRange rx tx = Inr PlusInf
   \<or> (\<exists>d. 0 \<le> d \<and> actorRange rx tx = Inr (Finite d))"
proof -
  let ?x = "py_pow2 (ov (pos_x rx - pos_x tx))" and ?y = "py_pow2 (ov (pos_y rx - pos_y tx))"
  consider (xe) "?x = Inl OverflowError" | (xi) "?x = Inr PlusInf"
    | (xf) p where "0 \<le> p" "?x = Inr (Finite p)"
    using py_pow2_cases [of "pos_x rx - pos_x tx"] by blast
  then show ?thesis
  proof cases
    case xe
    then show ?thesis by (simp add: actorRange_def)
  next
    case xi
    consider (ye) "?y = Inl OverflowError" | (yi) "?y = Inr PlusInf"
      | (yf) q where "0 \<le> q" "?y = Inr (Finite q)"
      using py_pow2_cases [of "pos_y rx - pos_y tx"] by blast
    then show ?thesis using xi by cases (simp_all add: actorRange_def py_sqrt_def)
  next
    case (xf p)
    consider (ye) "?y = Inl OverflowError" | (yi) "?y = Inr PlusInf"
      | (yf) q where "0 \<le> q" "?y = Inr (Finite q)"
      using py_pow2_cases [of "pos_y rx - pos_y tx"] by blast
    then show ?thesis
    proof cases
      case ye
      then show ?thesis using xf by (simp add: actorRange_def)
    next
      case yi
      then show ?thesis using xf by (simp add: actorRange_def py_sqrt_def)
    next
      case (yf q)
      from dadd_nonneg [OF xf(1) yf(1)] show ?thesis
      proof
        assume "dadd (Finite p) (Finite q) = PlusInf"
        then show ?thesis using xf yf by (simp add: actorRange_def py_sqrt_def)
      next
        assume "\<exists>r. 0 \<le> r \<and> dadd (Finite p) (Finite q) = Finite r"
        then obtain r where "0 \<le> r" "dadd (Finite p) (Finite q) = Finite r" by blast
        then have "0 \<le> sqrt r \<and> actorRange rx tx = Inr (Finite (sqrt r))"
          using xf yf by (simp add: actorRange_def py_sqrt_def)
        then show ?thesis by blast
      qed
    qed
  qed
qed

lemma actorRange_error: "actorRange rx tx = Inl e \<Longrightarrow> e = OverflowError"
  using actorRange_cases [of rx tx] by auto

section \<open>Properties of the engine\<close>

subsection \<open>The pairwise pass appends and changes nothing else\<close>

lemma config_fields:
  assumes "config s' = config s"
  shows "actors s' = actors s" "time s' = time s" "wavelength s' = wavelength s"
    "maxRange s' = maxRange s" "meetingDurationMean s' = meetingDurationMean s"
    "meetingDurationSd s' = meetingDurationSd s"
    "meetingDistanceMean s' = meetingDistanceMean s"
    "meetingDistanceSd s' = meetingDistanceSd s"
    "meetingChance s' = meetingChance s" "meetingMaxRange s' = meetingMaxRange s"
    "minX s' = minX s" "maxX s' = maxX s" "minY s' = minY s" "maxY s' = maxY s"
  using arg_cong [OF assms, of actors] arg_cong [OF assms, of time]
    arg_cong [OF assms, of wavelength] arg_cong [OF assms, of maxRange]
    arg_cong [OF assms, of meetingDurationMean] arg_cong [OF assms, of meetingDurationSd]
    arg_cong [OF assms, of meetingDistanceMean] arg_cong [OF assms, of meetingDistanceSd]
    arg_cong [OF assms, of meetingChance] arg_cong [OF assms, of meetingMaxRange]
    arg_cong [OF assms, of minX] arg_cong [OF assms, of maxX]
    arg_cong [OF assms, of minY] arg_cong [OF assms, of maxY]
  by (simp_all add: config_def)

lemma newMeeting_config:
  assumes "config s' = config s"
  shows "newMeeting w s' k rx tx = newMeeting w s k rx tx"
  using config_fields [OF assms] by (simp add: newMeeting_def)

lemma grows_refl: "grows w L s s"
  by (simp add: grows_def)

lemma grows_trans:
  assumes "grows w L s s1" "grows w L s1 s2"
  shows "grows w L s s2"
proof -
  from assms(1) obtain nm1 nr1 where a:
    "config s1 = config s" "meetings s1 = meetings s @ nm1" "readings s1 = readings s @ nr1"
    "\<forall>m\<in>set nm1. \<exists>rx\<in>set L. \<exists>tx\<in>set L. \<exists>k.
            actorId rx \<noteq> actorId tx \<and> m = newMeeting w s k rx tx"
    "\<forall>r\<in>set nr1. \<exists>rx\<in>set L. \<exists>tx\<in>set L. \<exists>p.
            actorId rx \<noteq> actorId tx \<and>
            r = (time s, actorId rx, actorId tx, p, deviceModel rx, deviceModel tx)"
    unfolding grows_def by blast
  from assms(2) obtain nm2 nr2 where b:
    "config s2 = config s1" "meetings s2 = meetings s1 @ nm2" "readings s2 = readings s1 @ nr2"
    "\<forall>m\<in>set nm2. \<exists>rx\<in>set L. \<exists>tx\<in>set L. \<exists>k.
            actorId rx \<noteq> actorId tx \<and> m = newMeeting w s1 k rx tx"
    "\<forall>r\<in>set nr2. \<exists>rx\<in>set L. \<exists>tx\<in>set L. \<exists>p.
            actorId rx \<noteq> actorId tx \<and>
            r = (time s1, actorId rx, actorId tx, p, deviceModel rx, deviceModel tx)"
    unfolding grows_def by blast
  have t: "time s1 = time s" using a(1) by (rule config_fields)
  have nm: "\<And>k rx tx. newMeeting w s1 k rx tx = newMeeting w s k rx tx"
    using a(1) by (rule newMeeting_config)
  have c1: "config s2 = config s" using a(1) b(1) by simp
  have c2: "meetings s2 = meetings s @ (nm1 @ nm2)" using a(2) b(2) by simp
  have c3: "readings s2 = readings s @ (nr1 @ nr2)" using a(3) b(3) by simp
  have c4: "\<forall>m\<in>set (nm1 @ nm2). \<exists>rx\<in>set L. \<exists>tx\<in>set L. \<exists>k.
            actorId rx \<noteq> actorId tx \<and> m = newMeeting w s k rx tx"
    using a(4) b(4) by (auto simp: nm)
  have c5: "\<forall>r\<in>set (nr1 @ nr2). \<exists>rx\<in>set L. \<exists>tx\<in>set L. \<exists>p.
            actorId rx \<noteq> actorId tx \<and>
            r = (time s, actorId rx, actorId tx, p, deviceModel rx, deviceModel tx)"
    using a(5) b(5) by (auto simp: t)
  show ?thesis unfolding grows_def using c1 c2 c3 c4 c5 by blast
qed

lemma meetingTest_cases:
  "meetingTest w (s, g) rx tx d = Inr sg1 \<Longrightarrow>
     sg1 = (s, g)
   \<or> sg1 = (s, g\<lparr>random_calls := Suc (random_calls g)\<rparr>)
   \<or> sg1 = (s\<lparr>meetings := meetings s @ [newMeeting w s (rvs_calls g) rx tx]\<rparr>,
            g\<lparr>random_calls := Suc (random_calls g), rvs_calls := Suc (rvs_calls g)\<rparr>)"
  by (auto simp: meetingTest_def Let_def split: option.splits if_splits)

lemma meetingTest_error:
  "meetingTest w (s, g) rx tx d = Inl e \<Longrightarrow>
     (e = ValueError ''norm.rvs'' \<and> meetingDurationSd s < 0) \<or> e = OverflowError"
  by (auto simp: meetingTest_def Let_def split: option.splits if_splits)

lemma readingCapture_cases:
  "readingCapture s rx tx d = Inr s'
   \<Longrightarrow> s' = s \<or> (\<exists>p. s' = s\<lparr>readings := readings s
           @ [(time s, actorId rx, actorId tx, p, deviceModel rx, deviceModel tx)]\<rparr>)"
  by (auto simp: readingCapture_def split: if_splits sum.splits)

lemma grows_meeting:
  "rx \<in> set L \<Longrightarrow> tx \<in> set L \<Longrightarrow> actorId rx \<noteq> actorId tx \<Longrightarrow>
   grows w L s (s\<lparr>meetings := meetings s @ [newMeeting w s k rx tx]\<rparr>)"
  unfolding grows_def by (auto simp: config_def)

lemma grows_reading:
  "rx \<in> set L \<Longrightarrow> tx \<in> set L \<Longrightarrow> actorId rx \<noteq> actorId tx \<Longrightarrow>
   grows w L s (s\<lparr>readings := readings s
           @ [(time s, actorId rx, actorId tx, p, deviceModel rx, deviceModel tx)]\<rparr>)"
  unfolding grows_def by (auto simp: config_def)

lemma meetingTest_grows:
  assumes "rx \<in> set L" "tx \<in> set L" "actorId rx \<noteq> actorId tx"
    "meetingTest w (s, g) rx tx d = Inr (s1, g1)"
  shows "grows w L s s1"
  using meetingTest_cases [OF assms(4)] grows_refl [of w L s]
    grows_meeting [OF assms(1-3), of w s "rvs_calls g"]
  by auto

lemma readingCapture_grows:
  assumes "rx \<in> set L" "tx \<in> set L" "actorId rx \<noteq> actorId tx"
    "readingCapture s rx tx d = Inr s'"
  shows "grows w L s s'"
  using readingCapture_cases [OF assms(4)] grows_refl [of w L s]
    grows_reading [OF assms(1-3), of w s]
  by auto

text \<open>A visit that returns did nothing, or ran the two branches at a finite distance.\<close>

lemma visitPair_split:
  assumes "visitPair w (s, g) rx tx = Inr (s', g')"
  shows "(s' = s \<and> g' = g)
    \<or> (\<exists>d s1. actorId rx \<noteq> actorId tx \<and> actorRange rx tx = Inr (Finite d)
          \<and> meetingTest w (s, g) rx tx d = Inr (s1, g')
          \<and> readingCapture s1 rx tx d = Inr s')"
  using assms
  by (auto simp: visitPair_def split: if_splits sum.splits dbl.splits)

lemma visitPair_grows:
  assumes "rx \<in> set L" "tx \<in> set L" "visitPair w (s, g) rx tx = Inr (s', g')"
  shows "grows w L s s'"
  using visitPair_split [OF assms(3)]
proof
  assume "s' = s \<and> g' = g"
  then show ?thesis by (simp add: grows_refl)
next
  assume "\<exists>d s1. actorId rx \<noteq> actorId tx \<and> actorRange rx tx = Inr (Finite d)
          \<and> meetingTest w (s, g) rx tx d = Inr (s1, g')
          \<and> readingCapture s1 rx tx d = Inr s'"
  then obtain d s1 where ne: "actorId rx \<noteq> actorId tx"
    and mt: "meetingTest w (s, g) rx tx d = Inr (s1, g')"
    and rc: "readingCapture s1 rx tx d = Inr s'" by blast
  have "grows w L s s1" using assms(1,2) ne mt by (rule meetingTest_grows)
  moreover have "grows w L s1 s'" using assms(1,2) ne rc by (rule readingCapture_grows)
  ultimately show ?thesis by (rule grows_trans)
qed

lemma innerLoop_grows:
  "rx \<in> set L \<Longrightarrow> set txs \<subseteq> set L \<Longrightarrow> innerLoop w (s, g) rx txs = Inr (s', g')
   \<Longrightarrow> grows w L s s'"
proof (induction txs arbitrary: s g)
  case Nil
  then show ?case by (simp add: grows_refl)
next
  case (Cons tx txs)
  from Cons.prems(3) obtain s1 g1 where
    v: "visitPair w (s, g) rx tx = Inr (s1, g1)" and
    r: "innerLoop w (s1, g1) rx txs = Inr (s', g')"
    by (auto split: sum.splits)
  have "grows w L s s1" using Cons.prems(1,2) v by (auto intro: visitPair_grows)
  moreover have "grows w L s1 s'" using Cons.IH [OF Cons.prems(1) _ r] Cons.prems(2) by simp
  ultimately show ?case by (rule grows_trans)
qed

lemma outerLoop_grows:
  "set rxs \<subseteq> set L \<Longrightarrow> outerLoop w (s, g) L rxs = Inr (s', g') \<Longrightarrow> grows w L s s'"
proof (induction rxs arbitrary: s g)
  case Nil
  then show ?case by (simp add: grows_refl)
next
  case (Cons rx rxs)
  from Cons.prems(2) obtain s1 g1 where
    v: "innerLoop w (s, g) rx L = Inr (s1, g1)" and
    r: "outerLoop w (s1, g1) L rxs = Inr (s', g')"
    by (auto split: sum.splits)
  have "grows w L s s1" using Cons.prems(1) v by (auto intro: innerLoop_grows)
  moreover have "grows w L s1 s'" using Cons.IH [OF _ r] Cons.prems(1) by simp
  ultimately show ?case by (rule grows_trans)
qed

lemma step_grows:
  assumes "step w (s, g) dt = Inr (s', g')"
  shows "\<exists>rem. movePass (s\<lparr>time := time s + dt\<rparr>) dt (actors s) = Inr rem
          \<and> grows w rem (s\<lparr>time := time s + dt, actors := rem\<rparr>) s'"
  using assms
  by (auto simp: step_def Let_def split: sum.splits intro: outerLoop_grows)

subsection \<open>The movement pass\<close>

lemma isInMeeting_time [simp]: "isInMeeting (s\<lparr>time := t\<rparr>) i n = isInMeeting s i n"
  by (simp add: isInMeeting_def)

lemma moveActor_kept_included: "moveActor s dt a = Inr (a', True) \<Longrightarrow> included a'"
  by (auto simp: moveActor_def updatePosition_def split: if_splits sum.splits option.splits)

lemma moveActor_error: "moveActor s dt a = Inl e \<Longrightarrow> e = AttributeError"
  by (auto simp: moveActor_def updatePosition_def split: if_splits sum.splits option.splits)

lemma movePass_error: "movePass s dt as = Inl e \<Longrightarrow> e = AttributeError"
proof (induction as arbitrary: e)
  case Nil
  then show ?case by simp
next
  case (Cons a as)
  then show ?case
    by (auto split: sum.splits prod.splits dest: moveActor_error)
qed

lemma movePass_set:
  "movePass s dt as = Inr rem \<Longrightarrow> set rem = {a'. \<exists>a\<in>set as. moveActor s dt a = Inr (a', True)}"
proof (induction as arbitrary: rem)
  case Nil
  then show ?case by simp
next
  case (Cons a as)
  from Cons.prems obtain a1 kept rem1 where
    m: "moveActor s dt a = Inr (a1, kept)" and
    p: "movePass s dt as = Inr rem1" and
    r: "rem = (if kept then a1 # rem1 else rem1)"
    by (auto split: sum.splits prod.splits)
  have ih: "set rem1 = {a'. \<exists>a\<in>set as. moveActor s dt a = Inr (a', True)}"
    using Cons.IH [OF p] .
  show ?case
  proof (cases kept)
    case True
    then show ?thesis using m r ih by auto
  next
    case False
    then show ?thesis using m r ih by auto
  qed
qed

lemma movePass_included: "movePass s dt as = Inr rem \<Longrightarrow> b \<in> set rem \<Longrightarrow> included b"
  using movePass_set [of s dt as rem] by (auto dest: moveActor_kept_included)

subsection \<open>The meeting list\<close>

lemma participants_newMeeting [simp]:
  "participants (newMeeting w s k rx tx) = [actorId rx, actorId tx]"
  by (simp add: newMeeting_def Meeting_init_def)

lemma getMeeting_None:
  "getMeeting s ids = None \<longleftrightarrow> (\<forall>m\<in>set (meetings s). sort (participants m) \<noteq> sort ids)"
  by (auto simp: getMeeting_def find_None_iff)

lemma meetingTest_pairMeetings:
  assumes "pairMeetings (meetings s)" "actorId rx \<noteq> actorId tx"
    "meetingTest w (s, g) rx tx d = Inr (s1, g1)"
  shows "pairMeetings (meetings s1)"
proof (cases "meetings s1 = meetings s")
  case True
  then show ?thesis using assms(1) by simp
next
  case False
  then have app: "meetings s1 = meetings s @ [newMeeting w s (rvs_calls g) rx tx]"
    and none: "getMeeting s [actorId rx, actorId tx] = None"
    using assms(3) by (auto simp: meetingTest_def Let_def split: option.splits if_splits)
  from none have "\<forall>m\<in>set (meetings s). sort (participants m) \<noteq> sort [actorId rx, actorId tx]"
    by (simp only: getMeeting_None)
  then have "sort [actorId rx, actorId tx] \<notin> (\<lambda>m. sort (participants m)) ` set (meetings s)"
    by auto
  then show ?thesis using assms(1,2) unfolding app pairMeetings_def by auto
qed

lemma readingCapture_meetings:
  "readingCapture s rx tx d = Inr s' \<Longrightarrow> meetings s' = meetings s"
  by (auto dest: readingCapture_cases)

lemma visitPair_pairMeetings:
  assumes "pairMeetings (meetings s)" "visitPair w (s, g) rx tx = Inr (s', g')"
  shows "pairMeetings (meetings s')"
  using visitPair_split [OF assms(2)]
proof
  assume "s' = s \<and> g' = g"
  then show ?thesis using assms(1) by simp
next
  assume "\<exists>d s1. actorId rx \<noteq> actorId tx \<and> actorRange rx tx = Inr (Finite d)
          \<and> meetingTest w (s, g) rx tx d = Inr (s1, g')
          \<and> readingCapture s1 rx tx d = Inr s'"
  then obtain d s1 where ne: "actorId rx \<noteq> actorId tx"
    and mt: "meetingTest w (s, g) rx tx d = Inr (s1, g')"
    and rc: "readingCapture s1 rx tx d = Inr s'" by blast
  have "pairMeetings (meetings s1)" using assms(1) ne mt by (rule meetingTest_pairMeetings)
  then show ?thesis using readingCapture_meetings [OF rc] by simp
qed

lemma innerLoop_pairMeetings:
  "pairMeetings (meetings s) \<Longrightarrow> innerLoop w (s, g) rx txs = Inr (s', g')
   \<Longrightarrow> pairMeetings (meetings s')"
proof (induction txs arbitrary: s g)
  case Nil
  then show ?case by simp
next
  case (Cons tx txs)
  from Cons.prems(2) obtain s1 g1 where
    v: "visitPair w (s, g) rx tx = Inr (s1, g1)" and
    r: "innerLoop w (s1, g1) rx txs = Inr (s', g')"
    by (auto split: sum.splits)
  show ?case using Cons.IH [OF visitPair_pairMeetings [OF Cons.prems(1) v] r] .
qed

lemma outerLoop_pairMeetings:
  "pairMeetings (meetings s) \<Longrightarrow> outerLoop w (s, g) L rxs = Inr (s', g')
   \<Longrightarrow> pairMeetings (meetings s')"
proof (induction rxs arbitrary: s g)
  case Nil
  then show ?case by simp
next
  case (Cons rx rxs)
  from Cons.prems(2) obtain s1 g1 where
    v: "innerLoop w (s, g) rx L = Inr (s1, g1)" and
    r: "outerLoop w (s1, g1) L rxs = Inr (s', g')"
    by (auto split: sum.splits)
  show ?case using Cons.IH [OF innerLoop_pairMeetings [OF Cons.prems(1) v] r] .
qed

lemma step_pairMeetings:
  assumes "pairMeetings (meetings s)" "step w (s, g) dt = Inr (s', g')"
  shows "pairMeetings (meetings s')"
proof -
  from assms(2) obtain rem where
    "outerLoop w (s\<lparr>time := time s + dt, actors := rem\<rparr>, g) rem rem = Inr (s', g')"
    by (auto simp: step_def Let_def split: sum.splits)
  then show ?thesis using assms(1) by (auto intro: outerLoop_pairMeetings [rotated])
qed

lemma reaches_pairMeetings:
  "reaches w sg0 sg \<Longrightarrow> pairMeetings (meetings (fst sg0)) \<Longrightarrow> pairMeetings (meetings (fst sg))"
proof (induction rule: reaches.induct)
  case reaches_refl
  then show ?case .
next
  case (reaches_addActor sg newActor)
  then show ?case by (simp add: addActor_def)
next
  case (reaches_step sg secondsElapsed sg')
  then show ?case using step_pairMeetings [of "fst sg" w "snd sg" secondsElapsed "fst sg'" "snd sg'"]
    by simp
qed

lemma sort_pair_set:
  assumes "p \<noteq> q" "p' \<noteq> q'" "{p, q} = {p', q'}"
  shows "sort [p, q] = sort [p', q' :: 'i::linorder]"
proof -
  from assms have "(p = p' \<and> q = q') \<or> (p = q' \<and> q = p')" by (auto simp: doubleton_eq_iff)
  then show ?thesis by (auto simp: insort_is_Cons)
qed

lemma filter_le_one:
  "distinct (map f xs) \<Longrightarrow> (\<And>x y. x \<in> set xs \<Longrightarrow> y \<in> set xs \<Longrightarrow> P x \<Longrightarrow> P y \<Longrightarrow> f x = f y)
   \<Longrightarrow> length (filter P xs) \<le> 1"
proof (induction xs)
  case Nil
  then show ?case by simp
next
  case (Cons x xs)
  show ?case
  proof (cases "P x")
    case True
    have "filter P xs = []"
    proof (rule ccontr)
      assume "filter P xs \<noteq> []"
      then obtain y where y: "y \<in> set xs" "P y" by (auto simp: filter_empty_conv)
      then have "f x = f y" using Cons.prems(2) [of x y] True by simp
      then show False using Cons.prems(1) y(1) by auto
    qed
    then show ?thesis using True by simp
  next
    case False
    then show ?thesis using Cons by auto
  qed
qed

lemma pairMeetings_count:
  assumes "pairMeetings ms"
  shows "length (filter (\<lambda>m. set (participants m) = {a, b}) ms) \<le> 1"
proof (rule filter_le_one [where f = "\<lambda>m. sort (participants m)"])
  show "distinct (map (\<lambda>m. sort (participants m)) ms)"
    using assms by (simp add: pairMeetings_def)
next
  fix x y
  assume h: "x \<in> set ms" "y \<in> set ms" "set (participants x) = {a, b}" "set (participants y) = {a, b}"
  from assms h(1) obtain p q where x: "p \<noteq> q" "participants x = [p, q]"
    unfolding pairMeetings_def by blast
  from assms h(2) obtain p' q' where y: "p' \<noteq> q'" "participants y = [p', q']"
    unfolding pairMeetings_def by blast
  have "{p, q} = {p', q'}" using h(3,4) x(2) y(2) by simp
  then show "sort (participants x) = sort (participants y)"
    using sort_pair_set [OF x(1) y(1)] x(2) y(2) by simp
qed

subsection \<open>The tick as a whole\<close>

lemma outOfBounds_time [simp]: "outOfBounds (s\<lparr>time := t\<rparr>) a = outOfBounds s a"
  by (simp add: outOfBounds_def)

lemma step_result:
  assumes "step w (s, g) dt = Inr (s', g')"
  shows "movePass (s\<lparr>time := time s + dt\<rparr>) dt (actors s) = Inr (actors s')"
    and "grows w (actors s') (s\<lparr>time := time s + dt, actors := actors s'\<rparr>) s'"
    and "time s' = time s + dt"
proof -
  from step_grows [OF assms] obtain rem where
    m: "movePass (s\<lparr>time := time s + dt\<rparr>) dt (actors s) = Inr rem" and
    gr: "grows w rem (s\<lparr>time := time s + dt, actors := rem\<rparr>) s'"
    by blast
  from gr have c: "config s' = config (s\<lparr>time := time s + dt, actors := rem\<rparr>)"
    by (simp add: grows_def)
  have a: "actors s' = rem" using config_fields(1) [OF c] by simp
  show "movePass (s\<lparr>time := time s + dt\<rparr>) dt (actors s) = Inr (actors s')"
    using m a by simp
  show "grows w (actors s') (s\<lparr>time := time s + dt, actors := actors s'\<rparr>) s'"
    using gr a by simp
  show "time s' = time s + dt" using config_fields(2) [OF c] by simp
qed

lemma step_actors_included:
  "step w (s, g) dt = Inr (s', g') \<Longrightarrow> b \<in> set (actors s') \<Longrightarrow> included b"
  using step_result(1) movePass_included by blast

lemma step_appends:
  assumes "step w (s, g) dt = Inr (s', g')"
  shows "\<exists>newM newR.
        meetings s' = meetings s @ newM \<and> readings s' = readings s @ newR \<and>
        (\<forall>m\<in>set newM. \<exists>rx\<in>set (actors s'). \<exists>tx\<in>set (actors s'). \<exists>k.
            actorId rx \<noteq> actorId tx \<and>
            m = newMeeting w (s\<lparr>time := time s + dt\<rparr>) k rx tx) \<and>
        (\<forall>r\<in>set newR. \<exists>rx\<in>set (actors s'). \<exists>tx\<in>set (actors s'). \<exists>p.
            actorId rx \<noteq> actorId tx \<and>
            r = (time s + dt, actorId rx, actorId tx, p, deviceModel rx, deviceModel tx))"
proof -
  have nm: "\<And>k rx tx. newMeeting w (s\<lparr>time := time s + dt, actors := actors s'\<rparr>) k rx tx
      = newMeeting w (s\<lparr>time := time s + dt\<rparr>) k rx tx"
    by (simp add: newMeeting_def)
  show ?thesis
    using step_result(2) [OF assms] unfolding grows_def by (simp add: nm)
qed

lemma reaches_trans:
  "reaches w sg1 sg2 \<Longrightarrow> reaches w sg0 sg1 \<Longrightarrow> reaches w sg0 sg2"
proof (induction rule: reaches.induct)
  case reaches_refl
  then show ?case .
next
  case (reaches_addActor sg newActor)
  then show ?case by (auto intro: reaches.reaches_addActor)
next
  case (reaches_step sg secondsElapsed sg')
  then show ?case by (auto intro: reaches.reaches_step)
qed

lemma reaches_meetings_grow:
  "reaches w sg0 sg \<Longrightarrow> \<exists>new. meetings (fst sg) = meetings (fst sg0) @ new"
proof (induction rule: reaches.induct)
  case reaches_refl
  then show ?case by simp
next
  case (reaches_addActor sg newActor)
  then show ?case by (simp add: addActor_def)
next
  case (reaches_step sg secondsElapsed sg')
  from reaches_step.hyps(2) have "step w (fst sg, snd sg) secondsElapsed = Inr (fst sg', snd sg')"
    by simp
  from step_appends [OF this] obtain newM where
    "meetings (fst sg') = meetings (fst sg) @ newM" by blast
  then show ?case using reaches_step.IH by auto
qed

lemma reaches_config:
  "reaches w sg0 sg \<Longrightarrow>
     wavelength (fst sg) = wavelength (fst sg0) \<and> maxRange (fst sg) = maxRange (fst sg0)"
proof (induction rule: reaches.induct)
  case reaches_refl
  then show ?case by simp
next
  case (reaches_addActor sg newActor)
  then show ?case by (simp add: addActor_def)
next
  case (reaches_step sg secondsElapsed sg')
  from reaches_step.hyps(2) have "step w (fst sg, snd sg) secondsElapsed = Inr (fst sg', snd sg')"
    by simp
  from step_result(2) [OF this] have c:
    "config (fst sg') = config ((fst sg)\<lparr>time := time (fst sg) + secondsElapsed,
        actors := actors (fst sg')\<rparr>)"
    by (simp add: grows_def)
  show ?case using config_fields(3) [OF c] config_fields(4) [OF c] reaches_step.IH by simp
qed

subsection \<open>What a tick can raise\<close>

lemma powerReceiver_error:
  "powerReceiver a wl d p g = Inl e \<Longrightarrow> e = ZeroDivisionError \<or> e = ValueError ''math.log10''"
  by (auto simp: powerReceiver_def Let_def split: dbl.splits if_splits)

lemma readingCapture_error:
  "readingCapture s rx tx d = Inl e \<Longrightarrow>
     d \<le> maxRange s \<and> wavelength s \<le> d
     \<and> powerReceiver rx (wavelength s) d (powerTx tx) (gainTx tx) = Inl e"
  by (auto simp: readingCapture_def split: if_splits sum.splits)

lemma readingCapture_error_config:
  assumes "config s1 = config s" "readingCapture s1 rx tx d = Inl e"
  shows "readingCapture s rx tx d = Inl e"
  using readingCapture_error [OF assms(2)] config_fields(3,4) [OF assms(1)]
  by (simp add: readingCapture_def)

lemma passError_config:
  assumes "config s1 = config s" "passError s1 e"
  shows "passError s e"
proof -
  have sd: "meetingDurationSd s1 = meetingDurationSd s" using assms(1) by (rule config_fields)
  from assms(2) consider "e = OverflowError"
    | "e = ValueError ''norm.rvs''" "meetingDurationSd s1 < 0"
    | rx tx d where "readingCapture s1 rx tx d = Inl e"
    unfolding passError_def by blast
  then show ?thesis
  proof cases
    case 1
    then show ?thesis by (simp add: passError_def)
  next
    case 2
    then show ?thesis using sd by (simp add: passError_def)
  next
    case 3
    from readingCapture_error_config [OF assms(1) 3] show ?thesis
      unfolding passError_def by blast
  qed
qed

lemma meetingTest_config:
  "meetingTest w (s, g) rx tx d = Inr (s1, g1) \<Longrightarrow> config s1 = config s"
  by (auto simp: config_def dest!: meetingTest_cases)

lemma visitPair_error:
  assumes "visitPair w (s, g) rx tx = Inl e"
  shows "passError s e"
proof -
  have ne: "actorId rx \<noteq> actorId tx" using assms by (auto simp: visitPair_def split: if_splits)
  show ?thesis
  proof (cases "actorRange rx tx")
    case (Inl e')
    then have "e = OverflowError" using assms ne actorRange_error [OF Inl]
      by (simp add: visitPair_def)
    then show ?thesis by (simp add: passError_def)
  next
    case (Inr r)
    then obtain d where r: "actorRange rx tx = Inr (Finite d)"
      using assms ne by (cases r) (simp_all add: visitPair_def)
    show ?thesis
    proof (cases "meetingTest w (s, g) rx tx d")
      case (Inl e')
      then have "e = e'" using assms ne r by (simp add: visitPair_def)
      then show ?thesis using meetingTest_error [OF Inl] by (auto simp: passError_def)
    next
      case (Inr sg1)
      then have mt: "meetingTest w (s, g) rx tx d = Inr (fst sg1, snd sg1)" by simp
      have "readingCapture (fst sg1) rx tx d = Inl e"
        using assms ne r Inr by (simp add: visitPair_def split: sum.splits)
      then have "passError (fst sg1) e" unfolding passError_def by blast
      with meetingTest_config [OF mt] show ?thesis by (rule passError_config)
    qed
  qed
qed

lemma innerLoop_error:
  "innerLoop w (s, g) rx txs = Inl e \<Longrightarrow> passError s e"
proof (induction txs arbitrary: s g)
  case Nil
  then show ?case by simp
next
  case (Cons tx txs)
  show ?case
  proof (cases "visitPair w (s, g) rx tx")
    case (Inl e')
    then have "e = e'" using Cons.prems by simp
    then show ?thesis using visitPair_error [OF Inl] by simp
  next
    case (Inr sg1)
    then have v: "visitPair w (s, g) rx tx = Inr (fst sg1, snd sg1)" by simp
    have "innerLoop w (fst sg1, snd sg1) rx txs = Inl e" using Cons.prems Inr by simp
    from Cons.IH [OF this] have p: "passError (fst sg1) e" .
    have "grows w [rx, tx] s (fst sg1)" by (rule visitPair_grows [OF _ _ v]) simp_all
    then have "config (fst sg1) = config s" by (simp add: grows_def)
    then show ?thesis using p by (rule passError_config)
  qed
qed

lemma outerLoop_error:
  "outerLoop w (s, g) L rxs = Inl e \<Longrightarrow> passError s e"
proof (induction rxs arbitrary: s g)
  case Nil
  then show ?case by simp
next
  case (Cons rx rxs)
  show ?case
  proof (cases "innerLoop w (s, g) rx L")
    case (Inl e')
    then have "e = e'" using Cons.prems by simp
    then show ?thesis using innerLoop_error [OF Inl] by simp
  next
    case (Inr sg1)
    then have v: "innerLoop w (s, g) rx L = Inr (fst sg1, snd sg1)" by simp
    have "outerLoop w (fst sg1, snd sg1) L rxs = Inl e" using Cons.prems Inr by simp
    from Cons.IH [OF this] have p: "passError (fst sg1) e" .
    have "grows w (rx # L) s (fst sg1)" by (rule innerLoop_grows [OF _ _ v]) auto
    then have "config (fst sg1) = config s" by (simp add: grows_def)
    then show ?thesis using p by (rule passError_config)
  qed
qed

lemma readingCapture_error_moved:
  assumes "readingCapture (s\<lparr>time := t, actors := as\<rparr>) rx tx d = Inl e"
  shows "readingCapture s rx tx d = Inl e"
  using readingCapture_error [OF assms] by (simp add: readingCapture_def)

lemma passError_moved:
  assumes "passError (s\<lparr>time := t, actors := as\<rparr>) e"
  shows "passError s e"
proof -
  from assms consider "e = OverflowError"
    | "e = ValueError ''norm.rvs''" "meetingDurationSd s < 0"
    | rx tx d where "readingCapture (s\<lparr>time := t, actors := as\<rparr>) rx tx d = Inl e"
    unfolding passError_def by auto
  then show ?thesis
  proof cases
    case 1
    then show ?thesis by (simp add: passError_def)
  next
    case 2
    then show ?thesis by (simp add: passError_def)
  next
    case 3
    from readingCapture_error_moved [OF 3] show ?thesis unfolding passError_def by blast
  qed
qed

lemma step_error:
  assumes "step w (s, g) dt = Inl e"
  shows "e = AttributeError \<or> passError s e"
proof (cases "movePass (s\<lparr>time := time s + dt\<rparr>) dt (actors s)")
  case (Inl e')
  then show ?thesis using assms movePass_error [OF Inl] by (simp add: step_def Let_def)
next
  case (Inr rem)
  then have "outerLoop w (s\<lparr>time := time s + dt, actors := rem\<rparr>, g) rem rem = Inl e"
    using assms by (simp add: step_def Let_def)
  from outerLoop_error [OF this] show ?thesis using passError_moved by blast
qed

text \<open>From the wavelength upwards the call raises only when the operand leaves the range.\<close>

lemma powerReceiver_guarded_error:
  assumes "0 < wl" "wl \<le> d" "powerReceiver a wl d p g = Inl e"
  shows "e = ValueError ''math.log10''
    \<and> (dbl_over \<le> 4 * pi * d \<or> wl / (4 * pi * d) \<le> dbl_under)"
  using assms(3) powerReceiver_beyond_wavelength [OF assms(1,2), of a p g]
  by (auto split: if_splits)

lemma in_range_no_error:
  assumes "0 < wl" "4 * pi * mr \<le> 2 ^ 1023" "1 / 2 ^ 1022 \<le> wl / (4 * pi * mr)"
    "wl \<le> d" "d \<le> mr"
  shows "\<not> (dbl_over \<le> 4 * pi * d \<or> wl / (4 * pi * d) \<le> dbl_under)"
proof -
  have d: "0 < d" using assms(1,4) by linarith
  have "4 * pi * d \<le> 4 * pi * mr" using assms(5) by simp
  then have a: "\<not> dbl_over \<le> 4 * pi * d" using assms(2) dbl_bounds(3) by linarith
  have "wl / (4 * pi * mr) \<le> wl / (4 * pi * d)"
    using assms(1) d assms(5) by (rule operand_antimono)
  then have b: "\<not> wl / (4 * pi * d) \<le> dbl_under" using assms(3) dbl_bounds(2) by linarith
  show ?thesis using a b by blast
qed

lemma passError_friis:
  assumes "0 < wavelength s" "passError s e"
  shows "e \<noteq> ZeroDivisionError"
    and "4 * pi * maxRange s \<le> 2 ^ 1023
         \<Longrightarrow> 1 / 2 ^ 1022 \<le> wavelength s / (4 * pi * maxRange s)
         \<Longrightarrow> e \<noteq> ValueError ''math.log10''"
proof -
  from assms(2) consider "e = OverflowError"
    | "e = ValueError ''norm.rvs''"
    | rx tx d where "readingCapture s rx tx d = Inl e"
    unfolding passError_def by blast
  note c = this
  show "e \<noteq> ZeroDivisionError"
  proof (cases rule: c)
    case 1
    then show ?thesis by simp
  next
    case 2
    then show ?thesis by simp
  next
    case (3 rx tx d)
    from readingCapture_error [OF 3] powerReceiver_guarded_error [OF assms(1)]
    show ?thesis by blast
  qed
  assume h: "4 * pi * maxRange s \<le> 2 ^ 1023"
    "1 / 2 ^ 1022 \<le> wavelength s / (4 * pi * maxRange s)"
  show "e \<noteq> ValueError ''math.log10''"
  proof (cases rule: c)
    case 1
    then show ?thesis by simp
  next
    case 2
    then show ?thesis by simp
  next
    case (3 rx tx d)
    from readingCapture_error [OF 3] have r: "d \<le> maxRange s" "wavelength s \<le> d"
      "powerReceiver rx (wavelength s) d (powerTx tx) (gainTx tx) = Inl e" by simp_all
    from powerReceiver_guarded_error [OF assms(1) r(2,3)]
      in_range_no_error [OF assms(1) h r(2,1)]
    show ?thesis by blast
  qed
qed

subsection \<open>The test scenes, evaluated\<close>

lemmas scene_defs = scene_sim_def scene_world_def scene_rng_def scene_actor_def
  scene_sim1_def scene_rng1_def scene_sim2_def scene_reading_def scene_runner_def
  setVelocity_def setPosition_def Actor_init_def

lemmas step_defs = step_def Let_def moveActor_def isInMeeting_def updatePosition_def
  outOfBounds_def visitPair_def meetingTest_def readingCapture_def
  getMeeting_def newMeeting_def endTime_def Meeting_init_def py_int_def hasParticipant_def
  stillMeeting_def

lemma scene_init:
  "Simulation_init [scene_actor 1 0 0, scene_actor 2 1 0] 23992800 15 (- 200) 200 (- 200) 200
     300 0 1 (3 / 10) 1 3 = Inr scene_sim"
  by (simp add: Simulation_init_def scene_sim_def)

lemma scene_powerReceiver:
  "powerReceiver (scene_actor i px py) (1 / 8) 1 13 (3 / 2) = Inr (Finite scene_power)"
proof -
  have "\<bar>gainRx (scene_actor i px py)\<bar> + \<bar>13\<bar> + \<bar>3 / 2 :: real\<bar> \<le> 2 ^ 1022"
    by (simp add: scene_defs)
  from powerReceiver_normal [OF dbl_normal_four_pi dbl_normal_eighth this]
  show ?thesis by (simp add: scene_power_def scene_defs)
qed

lemma scene_actorRange:
  "actorRange (scene_actor 1 0 0) (scene_actor 2 1 0) = Inr (Finite 1)"
  "actorRange (scene_actor 2 1 0) (scene_actor 1 0 0) = Inr (Finite 1)"
proof -
  have "(1::real) / 2 ^ 500 \<le> 1" "(1::real) \<le> 2 ^ 500" by simp_all
  then show "actorRange (scene_actor 1 0 0) (scene_actor 2 1 0) = Inr (Finite 1)"
    "actorRange (scene_actor 2 1 0) (scene_actor 1 0 0) = Inr (Finite 1)"
    using actorRange_on_axis [of "scene_actor 1 0 0" "scene_actor 2 1 0"]
      actorRange_on_axis [of "scene_actor 2 1 0" "scene_actor 1 0 0"]
    by (simp_all add: scene_defs)
qed

lemma scene_step1:
  "step scene_world (scene_sim, scene_rng) 1 = Inr (scene_sim1, scene_rng1)"
  using scene_powerReceiver [of 1 0 0] scene_powerReceiver [of 2 1 0] scene_actorRange
  by (simp add: step_defs scene_defs dbl_over_small)

lemma scene_step2:
  "step scene_world (scene_sim1, scene_rng1) 1 = Inr (scene_sim2, scene_rng1)"
  using scene_powerReceiver [of 1 0 0] scene_powerReceiver [of 2 1 0] scene_actorRange
  by (simp add: step_defs scene_defs dbl_over_small)

lemma scene_step_exit:
  "step scene_world (scene_sim\<lparr>actors := scene_runner # actors scene_sim\<rparr>, scene_rng) 1
     = Inr (scene_sim1, scene_rng1)"
  using scene_powerReceiver [of 1 0 0] scene_powerReceiver [of 2 1 0] scene_actorRange
  by (simp add: step_defs scene_defs dbl_over_small)

lemma scene_step_no_luck:
  "step (scene_world\<lparr>random_draw := (\<lambda>k. 1 / 4)\<rparr>) (scene_sim, scene_rng) 1
     = Inr (scene_sim1\<lparr>meetings := []\<rparr>, \<lparr> random_calls = 2, rvs_calls = 0 \<rparr>)"
  using scene_powerReceiver [of 1 0 0] scene_powerReceiver [of 2 1 0] scene_actorRange
  by (simp add: step_defs scene_defs dbl_over_small)

lemma scene_no_overflow:
  "\<not> dbl_over \<le> \<bar>1 / 2 + 3007 / 10 :: real\<bar>" "\<not> dbl_over \<le> \<bar>- 10 + 11 / 2 :: real\<bar>"
  by (simp_all add: dbl_over_def)

lemma scene_step_half:
  "step (scene_world\<lparr>norm_rvs := (\<lambda>k loc scale. 3007 / 10)\<rparr>)
       (scene_sim\<lparr>meetingDurationSd := 1\<rparr>, scene_rng) (1 / 2)
     = Inr (scene_sim\<lparr>meetingDurationSd := 1, time := 1 / 2, meetings := [Meeting_init (1 / 2) 301 [1, 2]],
              readings := [scene_reading (1 / 2) 1 2, scene_reading (1 / 2) 2 1]\<rparr>, scene_rng1)"
  using scene_powerReceiver [of 1 0 0] scene_powerReceiver [of 2 1 0] scene_actorRange
    scene_no_overflow
  by (simp add: step_defs scene_defs dbl_over_small)

lemma scene_step_back:
  "step (scene_world\<lparr>norm_rvs := (\<lambda>k loc scale. 11 / 2)\<rparr>)
       (scene_sim\<lparr>meetingDurationMean := 5, meetingDurationSd := 1\<rparr>, scene_rng) (- 10)
     = Inr (scene_sim\<lparr>meetingDurationMean := 5, meetingDurationSd := 1, time := - 10, meetings := [Meeting_init (- 10) (- 4) [1, 2]],
              readings := [scene_reading (- 10) 1 2, scene_reading (- 10) 2 1]\<rparr>, scene_rng1)"
  using scene_powerReceiver [of 1 0 0] scene_powerReceiver [of 2 1 0] scene_actorRange
    scene_no_overflow
  by (simp add: step_defs scene_defs dbl_over_small)



text \<open>The far scene: the operand of the logarithm underflows.\<close>

lemma far_init:
  "Simulation_init [scene_actor 1 0 0, scene_actor 2 (2 ^ 400) 0] (2 ^ 1000) (2 ^ 400)
     (- (2 ^ 401)) (2 ^ 401) (- 1) 1 0 0 1 (3 / 10) 1 3 = Inr far_sim"
  by (simp add: Simulation_init_def far_sim_def)

lemma far_actorRange:
  "actorRange (scene_actor 1 0 0) (scene_actor 2 (2 ^ 400) 0) = Inr (Finite (2 ^ 400))"
proof -
  have "(1::real) / 2 ^ 500 \<le> 2 ^ 400" "(2::real) ^ 400 \<le> 2 ^ 500" by simp_all
  then show ?thesis
    using actorRange_on_axis [of "scene_actor 1 0 0" "scene_actor 2 (2 ^ 400) 0"]
    by (simp add: scene_defs)
qed

lemma far_operand:
  "(0::real) < 2999100 / 2 ^ 1000" "(2999100::real) / 2 ^ 1000 \<le> 2 ^ 400"
  "(2999100 / 2 ^ 1000) / (4 * pi * 2 ^ 400) \<le> dbl_under"
proof -
  show "(0::real) < 2999100 / 2 ^ 1000" "(2999100::real) / 2 ^ 1000 \<le> 2 ^ 400" by simp_all
  have "(8::real) * 2 ^ 400 \<le> 4 * pi * 2 ^ 400" by (rule four_pi_bounds(1)) simp
  then have "(2999100 / 2 ^ 1000) / (4 * pi * 2 ^ 400) \<le> (2999100 / 2 ^ 1000) / (8 * 2 ^ 400)"
    by (intro divide_left_mono mult_pos_pos) simp_all
  also have "(2999100 / 2 ^ 1000) / (8 * 2 ^ 400) \<le> dbl_under" by (simp add: dbl_under_def)
  finally show "(2999100 / 2 ^ 1000) / (4 * pi * 2 ^ 400) \<le> dbl_under" .
qed

lemma far_powerReceiver:
  "powerReceiver a (2999100 / 2 ^ 1000) (2 ^ 400) p g = Inl (ValueError ''math.log10'')"
  using powerReceiver_beyond_wavelength [OF far_operand(1,2), of a p g] far_operand(3)
  by (simp only: simp_thms if_True)

lemma far_step:
  "step scene_world (far_sim, scene_rng) 1 = Inl (ValueError ''math.log10'')"
  using far_actorRange far_powerReceiver [of "scene_actor 1 0 0" 13 "3 / 2"]
  by (simp add: step_defs scene_defs far_sim_def)

section \<open>The claims about the engine\<close>

subsection \<open>Shape of the appended meetings, and the movement of one actor\<close>

lemma endTime_floor:
  "0 \<le> now + sample \<Longrightarrow> endTime now sample = max (real_of_int \<lfloor>now + sample\<rfloor>) (now + 1)"
  by (simp add: endTime_def py_int_def Let_def max_def)

lemma endTime_least: "now + 1 \<le> endTime now sample"
  by (simp add: endTime_def Let_def)

lemma newMeeting_shape:
  "participants (newMeeting w s k rx tx) = [actorId rx, actorId tx]"
  "start_m (newMeeting w s k rx tx) = time s"
  "end_m (newMeeting w s k rx tx)
     = endTime (time s) (norm_rvs w k (meetingDurationMean s) (meetingDurationSd s))"
  by (simp_all add: newMeeting_def Meeting_init_def)

lemma moveActor_frozen:
  "included a \<Longrightarrow> isInMeeting s (actorId a) (time s) \<Longrightarrow> moveActor s dt a = Inr (a, True)"
  by (simp add: moveActor_def)

lemma moveActor_moved:
  "moveActor s dt b = Inr (b', kept) \<Longrightarrow> pos_x b' \<noteq> pos_x b \<or> pos_y b' \<noteq> pos_y b
   \<Longrightarrow> included b \<and> \<not> isInMeeting s (actorId b) (time s)"
  by (auto simp: moveActor_def split: if_splits)

lemma moveActor_excluded:
  "included a \<Longrightarrow> \<not> isInMeeting s (actorId a) (time s) \<Longrightarrow> updatePosition a dt = Inr a'
   \<Longrightarrow> outOfBounds s a' \<Longrightarrow> moveActor s dt a = Inr (a'\<lparr>included := False\<rparr>, False)"
  by (simp add: moveActor_def)

lemma step_appends_live:
  assumes st: "step w (s, g) dt = Inr (s', g')"
  shows "\<exists>newM newR. meetings s' = meetings s @ newM \<and> readings s' = readings s @ newR
         \<and> (\<forall>m\<in>set newM. \<exists>rx\<in>set (actors s'). \<exists>tx\<in>set (actors s').
               included rx \<and> included tx \<and> participants m = [actorId rx, actorId tx])
         \<and> (\<forall>r\<in>set newR. \<exists>rx\<in>set (actors s'). \<exists>tx\<in>set (actors s'). \<exists>p.
               included rx \<and> included tx
               \<and> r = (time s', actorId rx, actorId tx, p, deviceModel rx, deviceModel tx))"
proof -
  have inc: "\<And>b. b \<in> set (actors s') \<Longrightarrow> included b"
    using st by (rule step_actors_included)
  have t: "time s' = time s + dt" using st by (rule step_result(3))
  from step_appends [OF st] obtain newM newR where
    a: "meetings s' = meetings s @ newM" "readings s' = readings s @ newR" and
    b: "\<forall>m\<in>set newM. \<exists>rx\<in>set (actors s'). \<exists>tx\<in>set (actors s'). \<exists>k.
          actorId rx \<noteq> actorId tx \<and>
          m = newMeeting w (s\<lparr>time := time s + dt\<rparr>) k rx tx" and
    c: "\<forall>r\<in>set newR. \<exists>rx\<in>set (actors s'). \<exists>tx\<in>set (actors s'). \<exists>p.
          actorId rx \<noteq> actorId tx \<and>
          r = (time s + dt, actorId rx, actorId tx, p, deviceModel rx, deviceModel tx)"
    by blast
  have b': "\<forall>m\<in>set newM. \<exists>rx\<in>set (actors s'). \<exists>tx\<in>set (actors s').
             included rx \<and> included tx \<and> participants m = [actorId rx, actorId tx]"
    using b inc by (metis participants_newMeeting)
  have c': "\<forall>r\<in>set newR. \<exists>rx\<in>set (actors s'). \<exists>tx\<in>set (actors s'). \<exists>p.
             included rx \<and> included tx
             \<and> r = (time s', actorId rx, actorId tx, p, deviceModel rx, deviceModel tx)"
    using c inc unfolding t by meson
  show ?thesis using a b' c' by blast
qed

lemma moveActor_kept_cases:
  "moveActor s dt b = Inr (b', True) \<Longrightarrow>
     (b' = b \<and> isInMeeting s (actorId b) (time s))
   \<or> (updatePosition b dt = Inr b' \<and> \<not> outOfBounds s b')"
  by (auto simp: moveActor_def split: if_splits sum.splits)

lemma updatePosition_actorId: "updatePosition a dt = Inr a' \<Longrightarrow> actorId a' = actorId a"
  by (auto simp: updatePosition_def split: option.splits)

lemma moved_out_not_kept:
  assumes "movePass s dt as = Inr rem" "\<not> isInMeeting s (actorId a) (time s)"
    "updatePosition a dt = Inr a'" "outOfBounds s a'"
  shows "a' \<notin> set rem"
proof
  assume "a' \<in> set rem"
  with movePass_set [OF assms(1)] obtain b where
    "b \<in> set as" "moveActor s dt b = Inr (a', True)" by auto
  from moveActor_kept_cases [OF this(2)] show False
    using assms(2,4) updatePosition_actorId [OF assms(3)] by auto
qed

subsection \<open>The pairwise pass\<close>











text \<open>
  Claim C1, evaluated on the scene: two actors with identifiers 1 and 2, one metre
  apart, and one tick of one second. The pairwise pass visits the pair as receiver 1
  with transmitter 2 and again as receiver 2 with transmitter 1: the tick appends two
  readings, one in each direction. When the first meeting test of the pair fails, the
  reverse visit tests the pair again: with every uniform draw equal to 1/4 the tick
  consumes two draws. The claim allows one visit of the pair, at most one reading, and
  no test of the reverse direction.
\<close>

theorem pairwise_pass_visits_both_orders:
  "step scene_world (scene_sim, scene_rng) 1 = Inr (scene_sim1, scene_rng1)
   \<and> actors scene_sim1 = [scene_actor 1 0 0, scene_actor 2 1 0]
   \<and> readings scene_sim = []
   \<and> readings scene_sim1
       = [(1, 1, 2, Finite scene_power, ''model013'', ''model013''),
          (1, 2, 1, Finite scene_power, ''model013'', ''model013'')]
   \<and> (\<exists>s'. step (scene_world\<lparr>random_draw := (\<lambda>k. 1 / 4)\<rparr>) (scene_sim, scene_rng) 1
             = Inr (s', \<lparr> random_calls = 2, rvs_calls = 0 \<rparr>))"
  using scene_step1 scene_step_no_luck by (simp add: scene_defs)




subsection \<open>Meet once\<close>

text \<open>
  Claim C3: in every state the engine reaches after its construction, at most one
  meeting of the list has the participants \<open>{a, b}\<close>. Later states only append to the
  list, so once a meeting of a pair is in it, nothing appended afterwards is a meeting
  of that pair, whatever the distances and whether or not the first meeting is over.
\<close>

theorem meet_once:
  assumes "Simulation_init as f mr x0 x1 y0 y1 dm ds xm xs ch mm = Inr s0"
    and "reaches w (s0, g0) (s, g)"
    and "reaches w (s, g) (s', g')"
  shows "length (filter (\<lambda>m. set (participants m) = {a, b}) (meetings s)) \<le> 1
    \<and> (\<exists>new. meetings s' = meetings s @ new
          \<and> ((\<exists>m\<in>set (meetings s). set (participants m) = {a, b})
               \<longrightarrow> (\<forall>m\<in>set new. set (participants m) \<noteq> {a, b})))"
proof -
  have init: "pairMeetings (meetings s0)"
    using assms(1) by (auto simp: Simulation_init_def pairMeetings_def split: if_splits)
  have inv: "pairMeetings (meetings s)"
    using reaches_pairMeetings [OF assms(2)] init by simp
  have "reaches w (s0, g0) (s', g')" using assms(3,2) by (rule reaches_trans)
  then have inv': "pairMeetings (meetings s')"
    using reaches_pairMeetings init by fastforce
  from reaches_meetings_grow [OF assms(3)] obtain new where
    new: "meetings s' = meetings s @ new" by auto
  have c: "length (filter (\<lambda>m. set (participants m) = {a, b}) (meetings s))
      + length (filter (\<lambda>m. set (participants m) = {a, b}) new) \<le> 1"
    using pairMeetings_count [OF inv', of a b] new by simp
  have "(\<exists>m\<in>set (meetings s). set (participants m) = {a, b})
      \<longrightarrow> (\<forall>m\<in>set new. set (participants m) \<noteq> {a, b})"
  proof (intro impI ballI notI)
    fix m'
    assume "\<exists>m\<in>set (meetings s). set (participants m) = {a, b}"
      and m': "m' \<in> set new" "set (participants m') = {a, b}"
    then have "filter (\<lambda>m. set (participants m) = {a, b}) (meetings s) \<noteq> []"
      by (auto simp: filter_empty_conv)
    moreover have "filter (\<lambda>m. set (participants m) = {a, b}) new \<noteq> []"
      using m' by (auto simp: filter_empty_conv)
    ultimately show False using c
      by (cases "filter (\<lambda>m. set (participants m) = {a, b}) (meetings s)";
          cases "filter (\<lambda>m. set (participants m) = {a, b}) new") auto
  qed
  then show ?thesis using pairMeetings_count [OF inv, of a b] new by blast
qed

text \<open>
  On the scene: the first tick forms the meeting of actors 1 and 2; the second tick,
  with the two actors still one metre apart, appends no meeting.
\<close>

theorem meet_once_witness:
  "Simulation_init [scene_actor 1 0 0, scene_actor 2 1 0] 23992800 15 (- 200) 200 (- 200) 200
       300 0 1 (3 / 10) 1 3 = Inr scene_sim
   \<and> reaches scene_world (scene_sim, scene_rng) (scene_sim1, scene_rng1)
   \<and> reaches scene_world (scene_sim1, scene_rng1) (scene_sim2, scene_rng1)
   \<and> meetings scene_sim1 = [Meeting_init 1 301 [1, 2]]
   \<and> meetings scene_sim2 = [Meeting_init 1 301 [1, 2]]
   \<and> length (filter (\<lambda>m. set (participants m) = {1, 2}) (meetings scene_sim1)) \<le> 1
   \<and> (\<exists>new. meetings scene_sim2 = meetings scene_sim1 @ new
          \<and> ((\<exists>m\<in>set (meetings scene_sim1). set (participants m) = {1, 2})
               \<longrightarrow> (\<forall>m\<in>set new. set (participants m) \<noteq> {1, 2})))"
proof -
  have r1: "reaches scene_world (scene_sim, scene_rng) (scene_sim1, scene_rng1)"
    using reaches_step [OF reaches_refl scene_step1] .
  have r2: "reaches scene_world (scene_sim1, scene_rng1) (scene_sim2, scene_rng1)"
    using reaches_step [OF reaches_refl scene_step2] .
  show ?thesis
    using meet_once [OF scene_init r1 r2, of 1 2] scene_init r1 r2
    by (simp add: scene_defs)
qed

subsection \<open>The meeting that is appended\<close>

text \<open>
  Claim C6, as stated, on two ticks of the scene with a duration deviation of 1. With a
  tick of half a second and a sampled duration of 300.7 the meeting starts at 0.5 and
  ends at 301, which is \<^verbatim>\<open>int(0.5 + 300.7)\<close> and not the floor of the sample added to
  the clock, 300.5. With a duration mean of 5, a tick of \<open>-10\<close> seconds and a sampled
  duration of 5.5 the meeting starts at \<open>-10\<close> and ends at \<open>-4\<close>, which is
  \<^verbatim>\<open>int(-4.5)\<close> and not the floor of the sum, \<open>-5\<close>.
\<close>

theorem appended_meeting_end_truncates:
  "step (scene_world\<lparr>norm_rvs := (\<lambda>k loc scale. 3007 / 10)\<rparr>)
       (scene_sim\<lparr>meetingDurationSd := 1\<rparr>, scene_rng) (1 / 2)
     = Inr (scene_sim\<lparr>meetingDurationSd := 1, time := 1 / 2, meetings := [Meeting_init (1 / 2) 301 [1, 2]],
              readings := [scene_reading (1 / 2) 1 2, scene_reading (1 / 2) 2 1]\<rparr>, scene_rng1)
   \<and> (301 :: real) \<noteq> max (real_of_int \<lfloor>3007 / 10 :: real\<rfloor> + 1 / 2) (1 / 2 + 1)
   \<and> step (scene_world\<lparr>norm_rvs := (\<lambda>k loc scale. 11 / 2)\<rparr>)
       (scene_sim\<lparr>meetingDurationMean := 5, meetingDurationSd := 1\<rparr>, scene_rng) (- 10)
     = Inr (scene_sim\<lparr>meetingDurationMean := 5, meetingDurationSd := 1, time := - 10, meetings := [Meeting_init (- 10) (- 4) [1, 2]],
              readings := [scene_reading (- 10) 1 2, scene_reading (- 10) 2 1]\<rparr>, scene_rng1)
   \<and> (- 4 :: real) \<noteq> max (real_of_int \<lfloor>- 10 + 11 / 2 :: real\<rfloor>) (- 10 + 1)"
  using scene_step_half scene_step_back by simp

text \<open>
  Claim C6, amended: every meeting a tick appends has the identifiers of the receiver
  and the transmitter of a visited pair as its participants, starts at the advanced
  clock, and ends at \<^verbatim>\<open>int(clock + sample)\<close>, the sum of the advanced clock and the
  sampled duration truncated toward zero, or at clock + 1 when that is later. The
  truncation is the floor when the sum is not negative. In every case the end is at
  least one after the start, and the duration at least one.
\<close>

theorem appended_meeting_shape:
  assumes "step w (s, g) dt = Inr (s', g')"
  shows "time s' = time s + dt \<and>
    (\<exists>new. meetings s' = meetings s @ new \<and>
      (\<forall>m\<in>set new. \<exists>rx\<in>set (actors s'). \<exists>tx\<in>set (actors s'). \<exists>k.
          participants m = [actorId rx, actorId tx]
        \<and> start_m m = time s'
        \<and> end_m m = endTime (time s') (norm_rvs w k (meetingDurationMean s) (meetingDurationSd s))
        \<and> (0 \<le> time s' + norm_rvs w k (meetingDurationMean s) (meetingDurationSd s)
             \<longrightarrow> end_m m = max (real_of_int
                    \<lfloor>time s' + norm_rvs w k (meetingDurationMean s) (meetingDurationSd s)\<rfloor>)
                   (time s' + 1))
        \<and> start_m m + 1 \<le> end_m m
        \<and> 1 \<le> duration m))"
proof -
  have t: "time s' = time s + dt" using assms by (rule step_result(3))
  from step_appends [OF assms] obtain newM where
    app: "meetings s' = meetings s @ newM" and
    each: "\<forall>m\<in>set newM. \<exists>rx\<in>set (actors s'). \<exists>tx\<in>set (actors s'). \<exists>k.
            actorId rx \<noteq> actorId tx \<and>
            m = newMeeting w (s\<lparr>time := time s + dt\<rparr>) k rx tx"
    by blast
  have "\<forall>m\<in>set newM. \<exists>rx\<in>set (actors s'). \<exists>tx\<in>set (actors s'). \<exists>k.
          participants m = [actorId rx, actorId tx]
        \<and> start_m m = time s'
        \<and> end_m m = endTime (time s') (norm_rvs w k (meetingDurationMean s) (meetingDurationSd s))
        \<and> (0 \<le> time s' + norm_rvs w k (meetingDurationMean s) (meetingDurationSd s)
             \<longrightarrow> end_m m = max (real_of_int
                    \<lfloor>time s' + norm_rvs w k (meetingDurationMean s) (meetingDurationSd s)\<rfloor>)
                   (time s' + 1))
        \<and> start_m m + 1 \<le> end_m m
        \<and> 1 \<le> duration m"
  proof
    fix m
    assume "m \<in> set newM"
    with each obtain rx tx k where
      rx: "rx \<in> set (actors s')" and tx: "tx \<in> set (actors s')" and
      m: "m = newMeeting w (s\<lparr>time := time s + dt\<rparr>) k rx tx"
      by blast
    let ?sample = "norm_rvs w k (meetingDurationMean s) (meetingDurationSd s)"
    have sh: "participants m = [actorId rx, actorId tx]" "start_m m = time s'"
      "end_m m = endTime (time s') ?sample"
      using newMeeting_shape [of w "s\<lparr>time := time s + dt\<rparr>" k rx tx] m t by simp_all
    have fl: "0 \<le> time s' + ?sample
        \<longrightarrow> end_m m = max (real_of_int \<lfloor>time s' + ?sample\<rfloor>) (time s' + 1)"
      using sh(3) by (simp add: endTime_floor)
    have le: "start_m m + 1 \<le> end_m m"
      using sh(2,3) endTime_least [of "time s'" ?sample] by simp
    then have du: "1 \<le> duration m" by (simp add: duration_def)
    show "\<exists>rx\<in>set (actors s'). \<exists>tx\<in>set (actors s'). \<exists>k.
          participants m = [actorId rx, actorId tx]
        \<and> start_m m = time s'
        \<and> end_m m = endTime (time s') (norm_rvs w k (meetingDurationMean s) (meetingDurationSd s))
        \<and> (0 \<le> time s' + norm_rvs w k (meetingDurationMean s) (meetingDurationSd s)
             \<longrightarrow> end_m m = max (real_of_int
                    \<lfloor>time s' + norm_rvs w k (meetingDurationMean s) (meetingDurationSd s)\<rfloor>)
                   (time s' + 1))
        \<and> start_m m + 1 \<le> end_m m
        \<and> 1 \<le> duration m"
      using rx tx sh fl le du by blast
  qed
  then show ?thesis using t app by blast
qed

theorem appended_meeting_shape_witness:
  "step scene_world (scene_sim, scene_rng) 1 = Inr (scene_sim1, scene_rng1)
   \<and> meetings scene_sim = []
   \<and> meetings scene_sim1 = [Meeting_init 1 301 [1, 2]]
   \<and> endTime 1 300 = 301
   \<and> time scene_sim1 = time scene_sim + 1
   \<and> (\<exists>new. meetings scene_sim1 = meetings scene_sim @ new \<and>
      (\<forall>m\<in>set new. \<exists>rx\<in>set (actors scene_sim1). \<exists>tx\<in>set (actors scene_sim1). \<exists>k.
          participants m = [actorId rx, actorId tx]
        \<and> start_m m = time scene_sim1
        \<and> end_m m = endTime (time scene_sim1)
             (norm_rvs scene_world k (meetingDurationMean scene_sim) (meetingDurationSd scene_sim))
        \<and> (0 \<le> time scene_sim1
                 + norm_rvs scene_world k (meetingDurationMean scene_sim) (meetingDurationSd scene_sim)
             \<longrightarrow> end_m m = max (real_of_int
                    \<lfloor>time scene_sim1 + norm_rvs scene_world k
                        (meetingDurationMean scene_sim) (meetingDurationSd scene_sim)\<rfloor>)
                   (time scene_sim1 + 1))
        \<and> start_m m + 1 \<le> end_m m
        \<and> 1 \<le> duration m))"
proof -
  have e: "endTime 1 300 = 301" by (simp add: endTime_def py_int_def)
  have m: "meetings scene_sim = []" "meetings scene_sim1 = [Meeting_init 1 301 [1, 2]]"
    by (simp_all add: scene_defs)
  show ?thesis
    using appended_meeting_shape [OF scene_step1] scene_step1 e m by blast
qed

subsection \<open>Exclusion and freezing\<close>

text \<open>
  Claim C7: an included actor \<open>a\<close> that is in no active meeting at the advanced clock
  and whose position after \<^verbatim>\<open>updatePosition(dt)\<close> is outside the bounding box leaves
  the movement pass with \<open>included\<close> set to false and is not retained: no member of
  the collection the tick leaves is in the state of the moved actor. The collection a
  tick leaves holds included actors only, so the excluded actor is not in it, nor in
  the collection any later tick leaves, whatever was added in between. The
  meetings and readings that this tick and any later tick append are made from
  receivers and transmitters of the collection that tick leaves, all of them included.
\<close>

theorem out_of_bounds_excluded:
  assumes "step w (s, g) dt = Inr (s1, g1)"
    and "a \<in> set (actors s)" and "included a"
    and "\<not> isInMeeting s (actorId a) (time s + dt)"
    and "updatePosition a dt = Inr a'" and "outOfBounds s a'"
    and "reaches w (s1, g1) (s2, g2)" and "step w (s2, g2) dt2 = Inr (s3, g3)"
  shows "moveActor (s\<lparr>time := time s + dt\<rparr>) dt a = Inr (a'\<lparr>included := False\<rparr>, False)
    \<and> a' \<notin> set (actors s1)
    \<and> a'\<lparr>included := False\<rparr> \<notin> set (actors s1)
    \<and> a'\<lparr>included := False\<rparr> \<notin> set (actors s3)
    \<and> (\<exists>newM newR. meetings s1 = meetings s @ newM \<and> readings s1 = readings s @ newR
         \<and> (\<forall>m\<in>set newM. \<exists>rx\<in>set (actors s1). \<exists>tx\<in>set (actors s1).
               included rx \<and> included tx \<and> participants m = [actorId rx, actorId tx])
         \<and> (\<forall>r\<in>set newR. \<exists>rx\<in>set (actors s1). \<exists>tx\<in>set (actors s1). \<exists>p.
               included rx \<and> included tx
               \<and> r = (time s1, actorId rx, actorId tx, p, deviceModel rx, deviceModel tx)))
    \<and> (\<exists>newM newR. meetings s3 = meetings s2 @ newM \<and> readings s3 = readings s2 @ newR
         \<and> (\<forall>m\<in>set newM. \<exists>rx\<in>set (actors s3). \<exists>tx\<in>set (actors s3).
               included rx \<and> included tx \<and> participants m = [actorId rx, actorId tx])
         \<and> (\<forall>r\<in>set newR. \<exists>rx\<in>set (actors s3). \<exists>tx\<in>set (actors s3). \<exists>p.
               included rx \<and> included tx
               \<and> r = (time s3, actorId rx, actorId tx, p, deviceModel rx, deviceModel tx)))"
proof -
  have ex: "moveActor (s\<lparr>time := time s + dt\<rparr>) dt a = Inr (a'\<lparr>included := False\<rparr>, False)"
    using assms(3-6) by (simp add: moveActor_excluded)
  have n0: "a' \<notin> set (actors s1)"
    using moved_out_not_kept [OF step_result(1) [OF assms(1)], of a a'] assms(4-6) by simp
  have n1: "a'\<lparr>included := False\<rparr> \<notin> set (actors s1)"
    using step_actors_included [OF assms(1)] by fastforce
  have n3: "a'\<lparr>included := False\<rparr> \<notin> set (actors s3)"
    using step_actors_included [OF assms(8)] by fastforce
  show ?thesis
    using ex n0 n1 n3 step_appends_live [OF assms(1)] step_appends_live [OF assms(8)] by blast
qed

lemma scene_exit_reaches:
  "reaches scene_world (scene_sim1, scene_rng1) (scene_sim1, scene_rng1)"
  by (rule reaches_refl)

lemma scene_exit_facts:
  "step scene_world (scene_sim\<lparr>actors := scene_runner # actors scene_sim\<rparr>, scene_rng) 1
       = Inr (scene_sim1, scene_rng1)
   \<and> scene_runner \<in> set (actors (scene_sim\<lparr>actors := scene_runner # actors scene_sim\<rparr>))
   \<and> included scene_runner
   \<and> \<not> isInMeeting (scene_sim\<lparr>actors := scene_runner # actors scene_sim\<rparr>)
          (actorId scene_runner)
          (time (scene_sim\<lparr>actors := scene_runner # actors scene_sim\<rparr>) + 1)
   \<and> updatePosition scene_runner 1 = Inr (scene_runner\<lparr>pos_x := 204\<rparr>)
   \<and> outOfBounds (scene_sim\<lparr>actors := scene_runner # actors scene_sim\<rparr>)
        (scene_runner\<lparr>pos_x := 204\<rparr>)"
  using scene_step_exit
  by (simp add: isInMeeting_def updatePosition_def outOfBounds_def scene_defs)

text \<open>
  On the scene with the runner added: the runner moves from \<open>(199, 0)\<close> to \<open>(204, 0)\<close>,
  outside the box of half-width 200, and is gone after the tick and after the next.
\<close>

theorem out_of_bounds_excluded_witness:
  "step scene_world (scene_sim\<lparr>actors := scene_runner # actors scene_sim\<rparr>, scene_rng) 1
       = Inr (scene_sim1, scene_rng1)
   \<and> included scene_runner
   \<and> updatePosition scene_runner 1 = Inr (scene_runner\<lparr>pos_x := 204\<rparr>)
   \<and> outOfBounds (scene_sim\<lparr>actors := scene_runner # actors scene_sim\<rparr>)
        (scene_runner\<lparr>pos_x := 204\<rparr>)
   \<and> step scene_world (scene_sim1, scene_rng1) 1 = Inr (scene_sim2, scene_rng1)
   \<and> moveActor (scene_sim\<lparr>actors := scene_runner # actors scene_sim,
          time := time (scene_sim\<lparr>actors := scene_runner # actors scene_sim\<rparr>) + 1\<rparr>) 1
        scene_runner
       = Inr (scene_runner\<lparr>pos_x := 204, included := False\<rparr>, False)
   \<and> scene_runner\<lparr>pos_x := 204\<rparr> \<notin> set (actors scene_sim1)
   \<and> scene_runner\<lparr>pos_x := 204, included := False\<rparr> \<notin> set (actors scene_sim1)
   \<and> scene_runner\<lparr>pos_x := 204, included := False\<rparr> \<notin> set (actors scene_sim2)
   \<and> actors scene_sim2 = [scene_actor 1 0 0, scene_actor 2 1 0]"
proof -
  note f = scene_exit_facts
  have a2: "actors scene_sim2 = [scene_actor 1 0 0, scene_actor 2 1 0]"
    by (simp add: scene_defs)
  show ?thesis
    using out_of_bounds_excluded [OF f [THEN conjunct1]
        f [THEN conjunct2, THEN conjunct1]
        f [THEN conjunct2, THEN conjunct2, THEN conjunct1]
        f [THEN conjunct2, THEN conjunct2, THEN conjunct2, THEN conjunct1]
        f [THEN conjunct2, THEN conjunct2, THEN conjunct2, THEN conjunct2, THEN conjunct1]
        f [THEN conjunct2, THEN conjunct2, THEN conjunct2, THEN conjunct2, THEN conjunct2]
        scene_exit_reaches scene_step2]
      f scene_step2 a2
    by simp
qed

text \<open>
  Claim C8: an included actor of the collection that is a participant of a meeting
  active at the advanced clock leaves the movement pass as it entered it, with the
  same position and the same flag, and is in the collection the tick leaves. No actor
  is moved by the pass unless it is included and in no active meeting.
\<close>

theorem meeting_participants_frozen:
  assumes "step w (s, g) dt = Inr (s', g')"
    and "a \<in> set (actors s)" and "included a"
    and "isInMeeting s (actorId a) (time s + dt)"
  shows "moveActor (s\<lparr>time := time s + dt\<rparr>) dt a = Inr (a, True)
    \<and> a \<in> set (actors s')
    \<and> (moveActor (s\<lparr>time := time s + dt\<rparr>) dt b = Inr (b', kept)
         \<and> (pos_x b' \<noteq> pos_x b \<or> pos_y b' \<noteq> pos_y b)
       \<longrightarrow> included b \<and> \<not> isInMeeting s (actorId b) (time s + dt))"
proof -
  let ?s1 = "s\<lparr>time := time s + dt\<rparr>"
  have fr: "moveActor ?s1 dt a = Inr (a, True)"
    using assms(3,4) by (simp add: moveActor_frozen)
  have "movePass ?s1 dt (actors s) = Inr (actors s')"
    using assms(1) by (rule step_result(1))
  from movePass_set [OF this] have "a \<in> set (actors s')"
    using assms(2) fr by auto
  moreover have "moveActor ?s1 dt b = Inr (b', kept)
         \<and> (pos_x b' \<noteq> pos_x b \<or> pos_y b' \<noteq> pos_y b)
       \<longrightarrow> included b \<and> \<not> isInMeeting s (actorId b) (time s + dt)"
    using moveActor_moved [of ?s1 dt b b' kept] by auto
  ultimately show ?thesis using fr by blast
qed

text \<open>
  On the scene after its first tick: actor 1 is in the meeting that runs from 1 to 301,
  and the second tick keeps it where it is. The runner, in no meeting, would be moved.
\<close>

theorem meeting_participants_frozen_witness:
  "step scene_world (scene_sim1, scene_rng1) 1 = Inr (scene_sim2, scene_rng1)
   \<and> scene_actor 1 0 0 \<in> set (actors scene_sim1)
   \<and> included (scene_actor 1 0 0)
   \<and> isInMeeting scene_sim1 (actorId (scene_actor 1 0 0)) (time scene_sim1 + 1)
   \<and> moveActor (scene_sim1\<lparr>time := time scene_sim1 + 1\<rparr>) 1 (scene_actor 1 0 0)
       = Inr (scene_actor 1 0 0, True)
   \<and> scene_actor 1 0 0 \<in> set (actors scene_sim2)
   \<and> moveActor (scene_sim1\<lparr>time := time scene_sim1 + 1\<rparr>) 1 scene_runner
       = Inr (scene_runner\<lparr>pos_x := 204, included := False\<rparr>, False)
   \<and> pos_x (scene_runner\<lparr>pos_x := 204, included := False\<rparr>) \<noteq> pos_x scene_runner
   \<and> included scene_runner
   \<and> \<not> isInMeeting scene_sim1 (actorId scene_runner) (time scene_sim1 + 1)"
proof -
  have h: "scene_actor 1 0 0 \<in> set (actors scene_sim1)" "included (scene_actor 1 0 0)"
    "isInMeeting scene_sim1 (actorId (scene_actor 1 0 0)) (time scene_sim1 + 1)"
    by (simp_all add: isInMeeting_def hasParticipant_def stillMeeting_def Meeting_init_def
        scene_defs)
  have r: "moveActor (scene_sim1\<lparr>time := time scene_sim1 + 1\<rparr>) 1 scene_runner
       = Inr (scene_runner\<lparr>pos_x := 204, included := False\<rparr>, False)"
    "pos_x (scene_runner\<lparr>pos_x := 204, included := False\<rparr>) \<noteq> pos_x scene_runner"
    by (simp_all add: step_defs scene_defs)
  show ?thesis
    using meeting_participants_frozen [OF scene_step2 h,
      of scene_runner "scene_runner\<lparr>pos_x := 204, included := False\<rparr>" False]
      scene_step2 h r
    by blast
qed

subsection \<open>The Friis fault\<close>

text \<open>
  Claim C10, as stated, on a scene at the edge of the range of the doubles. The
  frequency \<open>2^1000\<close> is positive and the wavelength stored is positive; the two
  actors are \<open>2^400\<close> metres apart, which is within the effect range and above the
  wavelength, so the reading branch calls \<^verbatim>\<open>powerReceiver\<close>. The operand
  \<open>wavelength / (4 * pi * distance)\<close> is positive over the reals and below the smallest
  double: the division returns zero, \<^verbatim>\<open>math.log10\<close> raises, and the tick ends in a
  \<^verbatim>\<open>ValueError\<close>.
\<close>

theorem friis_fault_operand_underflow:
  "Simulation_init [scene_actor 1 0 0, scene_actor 2 (2 ^ 400) 0] (2 ^ 1000) (2 ^ 400)
       (- (2 ^ 401)) (2 ^ 401) (- 1) 1 0 0 1 (3 / 10) 1 3 = Inr far_sim
   \<and> (0::real) < 2 ^ 1000
   \<and> 0 < wavelength far_sim
   \<and> actorRange (scene_actor 1 0 0) (scene_actor 2 (2 ^ 400) 0) = Inr (Finite (2 ^ 400))
   \<and> wavelength far_sim \<le> 2 ^ 400
   \<and> powerReceiver (scene_actor 1 0 0) (wavelength far_sim) (2 ^ 400)
        (powerTx (scene_actor 2 (2 ^ 400) 0)) (gainTx (scene_actor 2 (2 ^ 400) 0))
       = Inl (ValueError ''math.log10'')
   \<and> step scene_world (far_sim, scene_rng) 1 = Inl (ValueError ''math.log10'')"
proof -
  have w: "wavelength far_sim = 2999100 / 2 ^ 1000" by (simp add: far_sim_def)
  have p: "(0::real) < 2 ^ 1000" by simp
  have "powerReceiver (scene_actor 1 0 0) (wavelength far_sim) (2 ^ 400)
        (powerTx (scene_actor 2 (2 ^ 400) 0)) (gainTx (scene_actor 2 (2 ^ 400) 0))
       = Inl (ValueError ''math.log10'')"
    unfolding w by (rule far_powerReceiver)
  moreover have "0 < wavelength far_sim" "wavelength far_sim \<le> 2 ^ 400"
    unfolding w by (rule far_operand)+
  ultimately show ?thesis using far_init p far_actorRange far_step by (intro conjI)
qed

lemma scene_normal:
  "4 * pi * 15 \<le> 2 ^ 1023" "1 / 2 ^ 1022 \<le> (2999100 / 23992800) / (4 * pi * 15)"
proof -
  have "4 * pi * 15 < 240" using pi_bounds by simp
  moreover have "(240::real) \<le> 2 ^ 1023" by simp
  ultimately show "4 * pi * 15 \<le> 2 ^ 1023" by linarith
  have "1 / 1920 < (2999100 / 23992800) / (4 * pi * 15)" using pi_bounds by (simp add: field_simps)
  moreover have "(1::real) / 2 ^ 1022 \<le> 1 / 1920" by simp
  ultimately show "1 / 2 ^ 1022 \<le> (2999100 / 23992800) / (4 * pi * 15)" by linarith
qed

text \<open>
  Claim C10, amended. A simulation constructed with a positive frequency has the
  wavelength \<open>2999100 / frequency\<close>, which is positive and which no tick and no
  \<^verbatim>\<open>addActor\<close> changes, as they leave the effect range. In every state reached, the
  reading branch does nothing below the wavelength, so \<^verbatim>\<open>powerReceiver\<close> is called
  from the wavelength upwards only, where the division by \<open>4 * pi * distance\<close> does
  not raise: neither the call, nor the reading branch, nor a tick raises
  \<^verbatim>\<open>ZeroDivisionError\<close>. When \<open>4 * pi * maxRange\<close> and the operand at the effect
  range, \<open>wavelength / (4 * pi * maxRange)\<close>, are in the normal range of the doubles (at
  most \<open>2^1023\<close>, and at least \<open>2^-1022\<close>), the call returns at every distance from the
  wavelength to the effect range, the reading branch returns at every distance, and no
  tick raises the domain error of the logarithm.
\<close>

theorem friis_fault_unreachable:
  assumes "Simulation_init as f mr x0 x1 y0 y1 dm ds xm xs ch mm = Inr s0"
    and "0 < f" and "reaches w (s0, g0) (s, g)"
  shows "wavelength s0 = 2999100 / f \<and> wavelength s = wavelength s0 \<and> 0 < wavelength s
    \<and> maxRange s = mr
    \<and> (d < wavelength s \<longrightarrow> readingCapture s rx tx d = Inr s)
    \<and> (wavelength s \<le> d
         \<longrightarrow> powerReceiver rx (wavelength s) d (powerTx tx) (gainTx tx) \<noteq> Inl ZeroDivisionError)
    \<and> readingCapture s rx tx d \<noteq> Inl ZeroDivisionError
    \<and> step w (s, g) dt \<noteq> Inl ZeroDivisionError
    \<and> (4 * pi * mr \<le> 2 ^ 1023 \<and> 1 / 2 ^ 1022 \<le> (2999100 / f) / (4 * pi * mr)
         \<longrightarrow> (wavelength s \<le> d \<and> d \<le> mr
                \<longrightarrow> (\<exists>p. powerReceiver rx (wavelength s) d (powerTx tx) (gainTx tx) = Inr p))
            \<and> (\<exists>s'. readingCapture s rx tx d = Inr s')
            \<and> step w (s, g) dt \<noteq> Inl (ValueError ''math.log10''))"
proof -
  have w0: "wavelength s0 = 2999100 / f" and m0: "maxRange s0 = mr"
    using assms(1) by (auto simp: Simulation_init_def split: if_splits)
  have ws: "wavelength s = wavelength s0" and ms: "maxRange s = mr"
    using reaches_config [OF assms(3)] m0 by simp_all
  have pos: "0 < wavelength s" using w0 ws assms(2) by simp
  have below: "d < wavelength s \<longrightarrow> readingCapture s rx tx d = Inr s"
    by (simp add: readingCapture_def)
  have call: "wavelength s \<le> d
      \<longrightarrow> powerReceiver rx (wavelength s) d (powerTx tx) (gainTx tx) \<noteq> Inl ZeroDivisionError"
    using powerReceiver_guarded_error [OF pos] by fastforce
  have rcz: "readingCapture s rx tx d \<noteq> Inl ZeroDivisionError"
  proof
    assume "readingCapture s rx tx d = Inl ZeroDivisionError"
    then have "passError s ZeroDivisionError" unfolding passError_def by blast
    from passError_friis(1) [OF pos this] show False by simp
  qed
  have stz: "step w (s, g) dt \<noteq> Inl ZeroDivisionError"
  proof
    assume "step w (s, g) dt = Inl ZeroDivisionError"
    from step_error [OF this] have "passError s ZeroDivisionError" by simp
    from passError_friis(1) [OF pos this] show False by simp
  qed
  have normal: "4 * pi * mr \<le> 2 ^ 1023 \<and> 1 / 2 ^ 1022 \<le> (2999100 / f) / (4 * pi * mr)
         \<longrightarrow> (wavelength s \<le> d \<and> d \<le> mr
                \<longrightarrow> (\<exists>p. powerReceiver rx (wavelength s) d (powerTx tx) (gainTx tx) = Inr p))
            \<and> (\<exists>s'. readingCapture s rx tx d = Inr s')
            \<and> step w (s, g) dt \<noteq> Inl (ValueError ''math.log10'')"
  proof
    assume "4 * pi * mr \<le> 2 ^ 1023 \<and> 1 / 2 ^ 1022 \<le> (2999100 / f) / (4 * pi * mr)"
    then have h: "4 * pi * maxRange s \<le> 2 ^ 1023"
      "1 / 2 ^ 1022 \<le> wavelength s / (4 * pi * maxRange s)"
      using ms ws w0 by simp_all
    have nl: "\<And>e. passError s e \<Longrightarrow> e \<noteq> ValueError ''math.log10''"
      using passError_friis(2) [OF pos _ h] by blast
    have c: "wavelength s \<le> d \<and> d \<le> mr
        \<longrightarrow> (\<exists>p. powerReceiver rx (wavelength s) d (powerTx tx) (gainTx tx) = Inr p)"
    proof
      assume r: "wavelength s \<le> d \<and> d \<le> mr"
      then have "\<not> (dbl_over \<le> 4 * pi * d \<or> wavelength s / (4 * pi * d) \<le> dbl_under)"
        using in_range_no_error [OF pos h, of d] ms by simp
      then show "\<exists>p. powerReceiver rx (wavelength s) d (powerTx tx) (gainTx tx) = Inr p"
        using powerReceiver_beyond_wavelength [OF pos, of d rx "powerTx tx" "gainTx tx"] r
        by simp
    qed
    have rc: "\<exists>s'. readingCapture s rx tx d = Inr s'"
    proof (cases "readingCapture s rx tx d")
      case (Inl e)
      then have p: "passError s e" unfolding passError_def by blast
      from passError_friis(1) [OF pos p] nl [OF p] readingCapture_error [OF Inl]
        powerReceiver_error
      show ?thesis by blast
    next
      case (Inr s')
      then show ?thesis by blast
    qed
    have sl: "step w (s, g) dt \<noteq> Inl (ValueError ''math.log10'')"
    proof
      assume "step w (s, g) dt = Inl (ValueError ''math.log10'')"
      from step_error [OF this] have "passError s (ValueError ''math.log10'')" by simp
      from nl [OF this] show False by simp
    qed
    show "(wavelength s \<le> d \<and> d \<le> mr
                \<longrightarrow> (\<exists>p. powerReceiver rx (wavelength s) d (powerTx tx) (gainTx tx) = Inr p))
            \<and> (\<exists>s'. readingCapture s rx tx d = Inr s')
            \<and> step w (s, g) dt \<noteq> Inl (ValueError ''math.log10'')"
      using c rc sl by blast
  qed
  show ?thesis using w0 ws pos ms below call rcz stz normal by blast
qed

text \<open>
  On the scene after its first tick: the wavelength is 1/8 and the effect range 15, both
  \<open>4 * pi * 15\<close> and the operand at the effect range are in the normal range, a distance
  of 1/16 is below the wavelength, and at a distance of 1 the call returns.
\<close>

theorem friis_fault_unreachable_witness:
  "Simulation_init [scene_actor 1 0 0, scene_actor 2 1 0] 23992800 15 (- 200) 200 (- 200) 200
       300 0 1 (3 / 10) 1 3 = Inr scene_sim
   \<and> (0 :: real) < 23992800
   \<and> reaches scene_world (scene_sim, scene_rng) (scene_sim1, scene_rng1)
   \<and> 4 * pi * 15 \<le> 2 ^ 1023 \<and> 1 / 2 ^ 1022 \<le> (2999100 / 23992800) / (4 * pi * 15)
   \<and> wavelength scene_sim = 2999100 / 23992800
   \<and> wavelength scene_sim1 = 1 / 8
   \<and> maxRange scene_sim1 = 15
   \<and> readingCapture scene_sim1 (scene_actor 1 0 0) (scene_actor 2 1 0) (1 / 16) = Inr scene_sim1
   \<and> (\<exists>p. powerReceiver (scene_actor 1 0 0) (wavelength scene_sim1) 1
             (powerTx (scene_actor 2 1 0)) (gainTx (scene_actor 2 1 0)) = Inr p)
   \<and> (\<exists>s'. readingCapture scene_sim1 (scene_actor 1 0 0) (scene_actor 2 1 0) 1 = Inr s')
   \<and> step scene_world (scene_sim1, scene_rng1) 1 \<noteq> Inl ZeroDivisionError
   \<and> step scene_world (scene_sim1, scene_rng1) 1 \<noteq> Inl (ValueError ''math.log10'')"
proof -
  let ?a1 = "scene_actor 1 0 0" and ?a2 = "scene_actor 2 1 0"
  have r1: "reaches scene_world (scene_sim, scene_rng) (scene_sim1, scene_rng1)"
    using reaches_step [OF reaches_refl scene_step1] .
  have p: "(0 :: real) < 23992800" by simp
  have w1: "wavelength scene_sim1 = 1 / 8" by (simp add: scene_defs)
  note t1 = friis_fault_unreachable [OF scene_init p r1, of "1 / 16" ?a1 ?a2 1]
  note t2 = friis_fault_unreachable [OF scene_init p r1, of 1 ?a1 ?a2 1]
  have a: "wavelength scene_sim = 2999100 / 23992800" using t1 by blast
  have b: "maxRange scene_sim1 = 15" using t1 by blast
  have c: "readingCapture scene_sim1 ?a1 ?a2 (1 / 16) = Inr scene_sim1"
    using t1 w1 by simp
  have n: "(wavelength scene_sim1 \<le> 1 \<and> (1::real) \<le> 15
      \<longrightarrow> (\<exists>p. powerReceiver ?a1 (wavelength scene_sim1) 1 (powerTx ?a2) (gainTx ?a2) = Inr p))
     \<and> (\<exists>s'. readingCapture scene_sim1 ?a1 ?a2 1 = Inr s')
     \<and> step scene_world (scene_sim1, scene_rng1) 1 \<noteq> Inl (ValueError ''math.log10'')"
    using t2 scene_normal by blast
  have d: "\<exists>p. powerReceiver ?a1 (wavelength scene_sim1) 1 (powerTx ?a2) (gainTx ?a2) = Inr p"
    using n by (simp add: w1)
  have e: "\<exists>s'. readingCapture scene_sim1 ?a1 ?a2 1 = Inr s'" using n by blast
  have f: "step scene_world (scene_sim1, scene_rng1) 1 \<noteq> Inl (ValueError ''math.log10'')"
    using n by blast
  have z: "step scene_world (scene_sim1, scene_rng1) 1 \<noteq> Inl ZeroDivisionError"
    using t2 by blast
  show ?thesis using scene_init p r1 scene_normal a w1 b c d e z f by (intro conjI)
qed

end
